theory Spec2Isabelle
  imports Complex_Main "HOL-Library.Multiset" "HOL-Library.Log_Nat"
begin

section \<open>Arrays, indices and errors\<close>

text \<open>
  The module \<^verbatim>\<open>ft_triangulate.py\<close> works on numpy arrays of floating-point numbers.
  The embedding treats every finite coordinate as an exact real number; the
  missing-value marker (not-a-number) of the correspondence matrix is \<open>None\<close>.
  The single-precision arithmetic of the track aggregator is modelled apart, in
  the section on the aggregator in floating point.
  A Python exception is a value of \<open>py_error\<close>, returned on the left of a sum.
  \<open>ExternalError\<close> stands for whatever an external routine (OpenCV, the RPC
  stereo triangulation) raises.
\<close>

datatype py_error = IndexError | ValueError | TypeError | ExternalError

type_synonym pt3 = "real \<times> real \<times> real"

type_synonym hpt = "real \<times> real \<times> real \<times> real"

text \<open>An \<open>N \<times> k\<close> array of pixel coordinates: one inner list per observation.\<close>

type_synonym obs = "real option list list"

text \<open>
  The correspondence matrix \<open>C\<close>: a two-dimensional array with its shape
  \<open>(shape0, shape1)\<close>; \<open>item C r t\<close> is \<open>C[r, t]\<close> for \<open>r < shape0\<close>, \<open>t < shape1\<close>.
\<close>

record corr_matrix =
  shape0 :: nat
  shape1 :: nat
  item :: "nat \<Rightarrow> nat \<Rightarrow> real option"

text \<open>
  Python's \<open>xs[i]\<close> on a sequence of length \<open>n\<close>: a negative index counts from the
  end, an index outside \<open>[-n, n)\<close> raises \<open>IndexError\<close>.
\<close>

definition py_index :: "nat \<Rightarrow> int \<Rightarrow> py_error + nat" where
  "py_index n i =
     (if 0 \<le> i \<and> i < int n then Inr (nat i)
      else if i < 0 \<and> - int n \<le> i then Inr (nat (int n + i))
      else Inl IndexError)"

text \<open>The position that Python's index \<open>i\<close> names on an axis of length \<open>n\<close>, for \<open>-n \<le> i < n\<close>.\<close>

definition wrap_index :: "nat \<Rightarrow> int \<Rightarrow> nat" where
  "wrap_index n i = (if i < 0 then nat (int n + i) else nat i)"

text \<open>
  Python's slice \<open>a:b\<close> on an axis of length \<open>n\<close>: a negative bound has \<open>n\<close> added,
  then both bounds are clipped to \<open>[0, n]\<close>; the slice is empty when the start is
  not below the stop. A slice never raises.
\<close>

definition slice_bound :: "nat \<Rightarrow> int \<Rightarrow> nat" where
  "slice_bound n a = (if a < 0 then nat (max 0 (a + int n)) else nat (min a (int n)))"

definition py_slice :: "nat \<Rightarrow> int \<Rightarrow> int \<Rightarrow> nat list" where
  "py_slice n a b = [slice_bound n a ..< slice_bound n b]"

text \<open>\<open>np.where(m)[0]\<close> for a boolean vector \<open>m\<close> of length \<open>n\<close>: the indices where it holds, ascending.\<close>

definition np_where :: "(nat \<Rightarrow> bool) \<Rightarrow> nat \<Rightarrow> nat list" where
  "np_where m n = filter m [0..<n]"

text \<open>
  \<open>arr[idx] = vals\<close> for an array of 3D points, an index array and an \<open>N' \<times> 3\<close>
  array of values: numpy assigns row by row when \<open>N'\<close> is the number of indices,
  broadcasts a single row, and raises \<open>ValueError\<close> otherwise.
\<close>

definition setitem_rows :: "pt3 list \<Rightarrow> nat list \<Rightarrow> pt3 list \<Rightarrow> py_error + pt3 list" where
  "setitem_rows arr idx vals =
     (if length vals = length idx then Inr (fold (\<lambda>(t, v) a. a[t := v]) (zip idx vals) arr)
      else if length vals = 1 then Inr (fold (\<lambda>t a. a[t := hd vals]) idx arr)
      else Inl ValueError)"

section \<open>The pairwise triangulators\<close>

text \<open>
  The routines this module imports and does not define are parameters:
  \<^item> \<open>cv2_triangulatePoints P1 P2 pts1T pts2T\<close> returns the \<open>4 \<times> N\<close> array of homogeneous
    points, here the list of its \<open>N\<close> columns;
  \<^item> \<open>stereo_corresp_to_xyz rpc1 rpc2 pts1 pts2\<close> returns the \<open>N \<times> 3\<close> array of
    (lon, lat, alt) rows and the error of each point;
  \<^item> \<open>latlon_to_ecef_custom lat lon alt\<close>.
\<close>

record 'cam externals =
  cv2_triangulatePoints :: "'cam \<Rightarrow> 'cam \<Rightarrow> obs \<Rightarrow> obs \<Rightarrow> py_error + hpt list"
  stereo_corresp_to_xyz :: "'cam \<Rightarrow> 'cam \<Rightarrow> obs \<Rightarrow> obs \<Rightarrow> py_error + (pt3 list \<times> real list)"
  latlon_to_ecef_custom :: "real \<Rightarrow> real \<Rightarrow> real \<Rightarrow> pt3"

text \<open>
  \<open>X = cv2.triangulatePoints(P1, P2, pts1.T, pts2.T); X = X[:3, :] / X[-1, :]; pts3d = X.T\<close>.
  The division is the division of real numbers (a zero last coordinate, which gives
  an infinity or a not-a-number in floating point, is outside this model).
\<close>

definition linear_triangulation_multiple_pts ::
  "'cam externals \<Rightarrow> 'cam \<Rightarrow> 'cam \<Rightarrow> obs \<Rightarrow> obs \<Rightarrow> py_error + pt3 list" where
  "linear_triangulation_multiple_pts ext P1 P2 pts1 pts2 =
     (case cv2_triangulatePoints ext P1 P2 (transpose pts1) (transpose pts2) of
        Inl e \<Rightarrow> Inl e
      | Inr X \<Rightarrow> Inr (map (\<lambda>(x, y, z, w). (x / w, y / w, z / w)) X))"

text \<open>
  \<open>lonlatalt, err = stereo_corresp_to_xyz(rpc1, rpc2, pts1, pts2)\<close>, then
  \<open>latlon_to_ecef_custom(lonlatalt[:, 1], lonlatalt[:, 0], lonlatalt[:, 2])\<close>, stacked
  into rows \<open>(x, y, z)\<close>.
  Modelled from the spec: \<open>latlon_to_ecef_custom\<close> is not in the sources; the spec
  describes it as one pure function geodetic (latitude, longitude, altitude) to
  Cartesian (x, y, z), vectorized over arrays, so it is applied point by point.
\<close>

definition rpc_triangulation ::
  "'cam externals \<Rightarrow> 'cam \<Rightarrow> 'cam \<Rightarrow> obs \<Rightarrow> obs \<Rightarrow> py_error + (pt3 list \<times> real list)" where
  "rpc_triangulation ext rpc1 rpc2 pts1 pts2 =
     (case stereo_corresp_to_xyz ext rpc1 rpc2 pts1 pts2 of
        Inl e \<Rightarrow> Inl e
      | Inr (lonlatalt, err) \<Rightarrow>
          Inr (map (\<lambda>(lon, lat, alt). latlon_to_ecef_custom ext lat lon alt) lonlatalt, err))"

section \<open>The track aggregator\<close>

text \<open>
  \<open>avg[t] = ((count[t] - 1.0) * avg[t] + new_v[t]) / count[t]\<close> on one row, with
  \<open>count[t]\<close> already incremented.
\<close>

definition running_avg :: "real \<Rightarrow> pt3 \<Rightarrow> pt3 \<Rightarrow> pt3" where
  "running_avg c a v =
     (case a of (ax, ay, az) \<Rightarrow> case v of (vx, vy, vz) \<Rightarrow>
        (((c - 1) * ax + vx) / c, ((c - 1) * ay + vy) / c, ((c - 1) * az + vz) / c))"

text \<open>
  The inner function \<open>update_avg_pts3d(avg, count, new_v, t)\<close>: \<open>count[t] += 1.0\<close>
  and the running average on the rows \<open>t\<close>. numpy computes each right-hand side
  from the arrays as they are before the assignment.
\<close>

definition update_avg_pts3d ::
  "pt3 list \<Rightarrow> real list \<Rightarrow> pt3 list \<Rightarrow> nat list \<Rightarrow> pt3 list \<times> real list" where
  "update_avg_pts3d avg counts new_v t =
     (let counts' = fold (\<lambda>i c. c[i := counts ! i + 1]) t counts;
          avg' = fold (\<lambda>i a. a[i := running_avg (counts' ! i) (avg ! i) (new_v ! i)]) t avg
      in (avg', counts'))"

text \<open>\<open>mask = ~np.isnan(C[::2])\<close>: one row per even row of \<open>C\<close>.\<close>

definition mask_rows :: "corr_matrix \<Rightarrow> nat" where
  "mask_rows C = (shape0 C + 1) div 2"

definition mask_arr :: "corr_matrix \<Rightarrow> nat \<Rightarrow> nat \<Rightarrow> bool" where
  "mask_arr C k t = (item C (2 * k) t \<noteq> None)"

text \<open>\<open>C[2 * c : 2 * c + 2, pt_indices].T\<close>.\<close>

definition obs2d :: "corr_matrix \<Rightarrow> int \<Rightarrow> nat list \<Rightarrow> obs" where
  "obs2d C c pt_indices =
     map (\<lambda>t. map (\<lambda>r. item C r t) (py_slice (shape0 C) (2 * c) (2 * c + 2))) pt_indices"

text \<open>
  What one iteration of the loop over \<open>pairs_to_triangulate\<close> does before it updates
  the averages: the pair fails the range test, or no track is seen by both cameras
  (\<open>continue\<close>), or the pair is triangulated; then the outcome holds the loop's
  variables \<open>pt_indices\<close>, \<open>new_pts3d\<close> (what the pairwise triangulator returned)
  and \<open>new_values\<close>.
\<close>

datatype pair_outcome =
    OutOfRange
  | NoCommonTracks
  | Triangulated "nat list" "pt3 list" "pt3 list"

definition triangulate_pair ::
  "'cam externals \<Rightarrow> corr_matrix \<Rightarrow> 'cam list \<Rightarrow> string \<Rightarrow> int \<times> int \<Rightarrow> py_error + pair_outcome" where
  "triangulate_pair ext C cameras cam_model p =
     (case p of (c_i, c_j) \<Rightarrow>
      let n_pts = shape1 C; n_cam = shape0 C div 2 in
      if c_i < int n_cam \<and> c_j < int n_cam then
        (case py_index (mask_rows C) c_i of Inl e \<Rightarrow> Inl e | Inr k_i \<Rightarrow>
        (case py_index (mask_rows C) c_j of Inl e \<Rightarrow> Inl e | Inr k_j \<Rightarrow>
         let pt_indices = np_where (\<lambda>t. mask_arr C k_i t \<and> mask_arr C k_j t) n_pts;
             obs2d_i = obs2d C c_i pt_indices;
             obs2d_j = obs2d C c_j pt_indices
         in if length pt_indices = 0 then Inr NoCommonTracks
            else
              (case py_index (length cameras) c_i of Inl e \<Rightarrow> Inl e | Inr a \<Rightarrow>
              (case py_index (length cameras) c_j of Inl e \<Rightarrow> Inl e | Inr b \<Rightarrow>
              (case (if cam_model \<in> set [''affine'', ''perspective'']
                     then linear_triangulation_multiple_pts ext (cameras ! a) (cameras ! b) obs2d_i obs2d_j
                     else map_sum id fst (rpc_triangulation ext (cameras ! a) (cameras ! b) obs2d_i obs2d_j))
               of Inl e \<Rightarrow> Inl e | Inr new_pts3d \<Rightarrow>
              (case setitem_rows (replicate n_pts (0, 0, 0)) pt_indices new_pts3d
               of Inl e \<Rightarrow> Inl e | Inr new_values \<Rightarrow>
                 Inr (Triangulated pt_indices new_pts3d new_values)))))))
      else Inr OutOfRange)"

text \<open>
  The loop over the pairs, on the state \<open>(avg_pts3d, n_pairs)\<close>. An exception stops it.
  The progress messages under \<open>verbose\<close> are not part of the result and are left out.
\<close>

fun pairs_loop ::
  "'cam externals \<Rightarrow> corr_matrix \<Rightarrow> 'cam list \<Rightarrow> string \<Rightarrow> (int \<times> int) list \<Rightarrow>
   pt3 list \<times> real list \<Rightarrow> py_error + (pt3 list \<times> real list)" where
  "pairs_loop ext C cameras cam_model [] st = Inr st"
| "pairs_loop ext C cameras cam_model (p # ps) st =
     (case triangulate_pair ext C cameras cam_model p of
        Inl e \<Rightarrow> Inl e
      | Inr OutOfRange \<Rightarrow> pairs_loop ext C cameras cam_model ps st
      | Inr NoCommonTracks \<Rightarrow> pairs_loop ext C cameras cam_model ps st
      | Inr (Triangulated pt_indices new_pts3d new_values) \<Rightarrow>
          pairs_loop ext C cameras cam_model ps
            (update_avg_pts3d (fst st) (snd st) new_values pt_indices))"

definition init_pts3d ::
  "'cam externals \<Rightarrow> corr_matrix \<Rightarrow> 'cam list \<Rightarrow> string \<Rightarrow> (int \<times> int) list \<Rightarrow> py_error + pt3 list" where
  "init_pts3d ext C cameras cam_model pairs_to_triangulate =
     (let n_pts = shape1 C;
          avg_pts3d = replicate n_pts (0, 0, 0);
          n_pairs = replicate n_pts 0
      in case pairs_loop ext C cameras cam_model pairs_to_triangulate (avg_pts3d, n_pairs) of
           Inl e \<Rightarrow> Inl e
         | Inr st \<Rightarrow> Inr (fst st))"

section \<open>The arithmetic mean of the pairwise estimates\<close>

text \<open>Sums and means of 3D points, coordinate by coordinate.\<close>

definition pt_add :: "pt3 \<Rightarrow> pt3 \<Rightarrow> pt3" where
  "pt_add a b = (case a of (ax, ay, az) \<Rightarrow> case b of (bx, by, bz) \<Rightarrow> (ax + bx, ay + by, az + bz))"

definition pt_scale :: "real \<Rightarrow> pt3 \<Rightarrow> pt3" where
  "pt_scale k a = (case a of (ax, ay, az) \<Rightarrow> (k * ax, k * ay, k * az))"

fun pt_sum :: "pt3 list \<Rightarrow> pt3" where
  "pt_sum [] = (0, 0, 0)"
| "pt_sum (v # vs) = pt_add v (pt_sum vs)"

definition pt_mean :: "pt3 list \<Rightarrow> pt3" where
  "pt_mean vs = (if vs = [] then (0, 0, 0) else pt_scale (1 / real (length vs)) (pt_sum vs))"

text \<open>
  A pair co-observes track \<open>t\<close> when it passes the range test of the loop and both
  of its rows of the mask hold at \<open>t\<close>.
\<close>

definition co_observed :: "corr_matrix \<Rightarrow> int \<times> int \<Rightarrow> nat \<Rightarrow> bool" where
  "co_observed C p t =
     (case p of (c_i, c_j) \<Rightarrow>
        c_i < int (shape0 C div 2) \<and> c_j < int (shape0 C div 2) \<and>
        (case py_index (mask_rows C) c_i of Inl e \<Rightarrow> False | Inr k_i \<Rightarrow>
        (case py_index (mask_rows C) c_j of Inl e \<Rightarrow> False | Inr k_j \<Rightarrow>
           mask_arr C k_i t \<and> mask_arr C k_j t)))"

text \<open>The estimate of track \<open>t\<close> that a pair produces: row \<open>t\<close> of its \<open>new_values\<close>.\<close>

definition estimate ::
  "'cam externals \<Rightarrow> corr_matrix \<Rightarrow> 'cam list \<Rightarrow> string \<Rightarrow> int \<times> int \<Rightarrow> nat \<Rightarrow> pt3" where
  "estimate ext C cameras cam_model p t =
     (case triangulate_pair ext C cameras cam_model p of
        Inr (Triangulated pt_indices new_pts3d new_values) \<Rightarrow> new_values ! t
      | _ \<Rightarrow> (0, 0, 0))"

definition estimates ::
  "'cam externals \<Rightarrow> corr_matrix \<Rightarrow> 'cam list \<Rightarrow> string \<Rightarrow> (int \<times> int) list \<Rightarrow> nat \<Rightarrow> pt3 list" where
  "estimates ext C cameras cam_model pairs t =
     map (\<lambda>p. estimate ext C cameras cam_model p t) (filter (\<lambda>p. co_observed C p t) pairs)"

section \<open>The aggregator on a store of arrays\<close>

text \<open>
  The arrays of one call live in a store: an array is named by its address, the
  index of its cell. \<open>np.zeros\<close> allocates a new cell at the end of the store; an
  assignment \<open>arr[idx] = \<dots>\<close> overwrites the cell of \<open>arr\<close>. The correspondence matrix
  is the cell \<open>c\<close> the caller passes. \<open>init_pts3d_st\<close> follows \<open>init_pts3d\<close> statement by
  statement: it allocates \<open>avg_pts3d\<close> and \<open>n_pairs\<close>, reads \<open>C\<close> from its cell in each
  iteration, allocates \<open>new_values\<close>, and \<open>update_avg_pts3d\<close> writes the cells of the
  two arrays it was handed. It returns the address of \<open>avg_pts3d\<close> and the final store.
  (The source computes \<open>mask\<close> from \<open>C\<close> once, before the loop, into an array of its
  own; here each iteration reads the mask from the cell of \<open>C\<close>. The slices
  \<open>C[2 * c : 2 * c + 2, pt_indices]\<close> are copies, made by the index array, so the
  external routines are handed no view of \<open>C\<close>.)
\<close>

datatype array = Matrix corr_matrix | Points "pt3 list" | Reals "real list"

type_synonym store = "array list"

definition alloc :: "store \<Rightarrow> array \<Rightarrow> nat \<times> store" where
  "alloc s arr = (length s, s @ [arr])"

definition lookup :: "store \<Rightarrow> nat \<Rightarrow> array option" where
  "lookup s a = (if a < length s then Some (s ! a) else None)"

fun pairs_loop_st ::
  "'cam externals \<Rightarrow> nat \<Rightarrow> 'cam list \<Rightarrow> string \<Rightarrow> nat \<Rightarrow> nat \<Rightarrow> (int \<times> int) list \<Rightarrow>
   store \<Rightarrow> py_error + store" where
  "pairs_loop_st ext c cameras cam_model a n [] s = Inr s"
| "pairs_loop_st ext c cameras cam_model a n (p # ps) s =
     (case lookup s c of
        Some (Matrix C) \<Rightarrow>
          (case triangulate_pair ext C cameras cam_model p of
             Inl e \<Rightarrow> Inl e
           | Inr OutOfRange \<Rightarrow> pairs_loop_st ext c cameras cam_model a n ps s
           | Inr NoCommonTracks \<Rightarrow> pairs_loop_st ext c cameras cam_model a n ps s
           | Inr (Triangulated pt_indices new_pts3d new_values) \<Rightarrow>
               (case alloc s (Points new_values) of (v, s1) \<Rightarrow>
               (case (lookup s1 a, lookup s1 n, lookup s1 v) of
                  (Some (Points avg), Some (Reals counts), Some (Points new_v)) \<Rightarrow>
                    (case update_avg_pts3d avg counts new_v pt_indices of (avg', counts') \<Rightarrow>
                       pairs_loop_st ext c cameras cam_model a n ps
                         (s1[n := Reals counts', a := Points avg']))
                | _ \<Rightarrow> Inl TypeError)))
      | _ \<Rightarrow> Inl TypeError)"

definition init_pts3d_st ::
  "'cam externals \<Rightarrow> store \<Rightarrow> nat \<Rightarrow> 'cam list \<Rightarrow> string \<Rightarrow> (int \<times> int) list \<Rightarrow>
   py_error + (nat \<times> store)" where
  "init_pts3d_st ext s c cameras cam_model pairs_to_triangulate =
     (case lookup s c of
        Some (Matrix C) \<Rightarrow>
          (let n_pts = shape1 C in
           case alloc s (Points (replicate n_pts (0, 0, 0))) of (a, s1) \<Rightarrow>
           (case alloc s1 (Reals (replicate n_pts 0)) of (n, s2) \<Rightarrow>
           (case pairs_loop_st ext c cameras cam_model a n pairs_to_triangulate s2 of
              Inl e \<Rightarrow> Inl e
            | Inr s' \<Rightarrow> Inr (a, s'))))
      | _ \<Rightarrow> Inl TypeError)"

section \<open>The multiview triangulator\<close>

text \<open>A \<open>3 \<times> 4\<close> projection matrix, as its rows \<open>P[0, :]\<close>, \<open>P[1, :]\<close>, \<open>P[2, :]\<close>.\<close>

type_synonym proj_matrix = "real list \<times> real list \<times> real list"

text \<open>\<open>x * P[2, :] - P[k, :]\<close>.\<close>

definition row_comb :: "real \<Rightarrow> real list \<Rightarrow> real list \<Rightarrow> real list" where
  "row_comb x r2 rk = map2 (\<lambda>a b. x * a - b) r2 rk"

text \<open>The first exception of a list of results, or all of their values.\<close>

fun collect :: "('e + 'a) list \<Rightarrow> 'e + 'a list" where
  "collect [] = Inr []"
| "collect (x # xs) =
     (case x of Inl e \<Rightarrow> Inl e
      | Inr v \<Rightarrow> (case collect xs of Inl e \<Rightarrow> Inl e | Inr vs \<Rightarrow> Inr (v # vs)))"

text \<open>
  The inner function \<open>define_row(pts2d, i, P)\<close>: a Python list of two rows.
  \<open>pts2d[2 * i + 1]\<close> raises \<open>IndexError\<close> past the end of \<open>pts2d\<close>.
\<close>

definition define_row :: "real list \<Rightarrow> nat \<Rightarrow> proj_matrix \<Rightarrow> py_error + real list list" where
  "define_row pts2d i P =
     (case P of (P0, P1, P2) \<Rightarrow>
        if 2 * i + 1 < length pts2d
        then Inr [row_comb (pts2d ! (2 * i)) P2 P0, row_comb (pts2d ! (2 * i + 1)) P2 P1]
        else Inl IndexError)"

text \<open>
  \<open>A = np.array([define_row(pts2d, i, P) for i, P in enumerate(projection_matrices)])\<close>:
  one element per camera, each a list of two rows, so \<open>A\<close> is an array of \<open>M\<close> blocks
  of shape \<open>2 \<times> 4\<close>.
\<close>

definition multiview_A :: "real list \<Rightarrow> proj_matrix list \<Rightarrow> py_error + real list list list" where
  "multiview_A pts2d projection_matrices =
     collect (map (\<lambda>(i, P). define_row pts2d i P) (enumerate 0 projection_matrices))"

text \<open>
  \<open>np.linalg.svd(A, full_matrices=False)\<close> is a parameter \<open>svd\<close>, from a two-dimensional
  array to \<open>(u, s, vh)\<close>; on an array of more dimensions numpy decomposes each
  matrix of the last two axes. \<open>vh.T[:3, -1] / vh.T[-1, -1]\<close> then is, for the
  stacked \<open>vh\<close> of shape \<open>(M, 2, 4)\<close>, the \<open>3 \<times> M\<close> array whose entry \<open>(k, m)\<close> is
  \<open>vh[m][-1][k] / vh[m][-1][3]\<close>. An empty \<open>A\<close> is not a matrix and \<open>svd\<close> raises.
\<close>

type_synonym svd_fun = "real list list \<Rightarrow> py_error + (real list list \<times> real list \<times> real list list)"

definition linear_triangulation_single_pt_multiview ::
  "svd_fun \<Rightarrow> real list \<Rightarrow> proj_matrix list \<Rightarrow> py_error + real list list" where
  "linear_triangulation_single_pt_multiview svd pts2d projection_matrices =
     (case multiview_A pts2d projection_matrices of
        Inl e \<Rightarrow> Inl e
      | Inr A \<Rightarrow>
          if A = [] then Inl ExternalError
          else (case collect (map svd A) of
                  Inl e \<Rightarrow> Inl e
                | Inr usv \<Rightarrow>
                    Inr (map (\<lambda>k. map (\<lambda>(u, s, vh). (last vh ! k) / (last vh ! 3)) usv) [0, 1, 2])))"

text \<open>
  \<open>linear_triangulation_single_pt(P1, P2, pt1, pt2)\<close>: the four rows \<open>l1, \<dots>, l4\<close> in one
  \<open>4 \<times> 4\<close> matrix, one decomposition, and \<open>vh.T[:3, -1] / vh.T[-1, -1]\<close> is a vector
  of three coordinates.
\<close>

definition single_pt_A :: "proj_matrix \<Rightarrow> proj_matrix \<Rightarrow> real \<times> real \<Rightarrow> real \<times> real \<Rightarrow> real list list" where
  "single_pt_A P1 P2 pt1 pt2 =
     (case P1 of (P10, P11, P12) \<Rightarrow> case P2 of (P20, P21, P22) \<Rightarrow>
      case pt1 of (x1, y1) \<Rightarrow> case pt2 of (x2, y2) \<Rightarrow>
        [row_comb x1 P12 P10, row_comb y1 P12 P11, row_comb x2 P22 P20, row_comb y2 P22 P21])"

definition linear_triangulation_single_pt ::
  "svd_fun \<Rightarrow> proj_matrix \<Rightarrow> proj_matrix \<Rightarrow> real \<times> real \<Rightarrow> real \<times> real \<Rightarrow> py_error + real list" where
  "linear_triangulation_single_pt svd P1 P2 pt1 pt2 =
     (case svd (single_pt_A P1 P2 pt1 pt2) of
        Inl e \<Rightarrow> Inl e
      | Inr (u, s, vh) \<Rightarrow> Inr (map (\<lambda>k. (last vh ! k) / (last vh ! 3)) [0, 1, 2]))"

text \<open>
  Indexing a Python list with a numpy index array: a list takes an integer or a
  slice, and an array of one dimension does not convert to an integer, so
  \<open>cameras[cam_idx]\<close> raises \<open>TypeError\<close> whatever the array holds.
\<close>

definition list_getitem_ndarray :: "'a list \<Rightarrow> nat list \<Rightarrow> py_error + 'a" where
  "list_getitem_ndarray xs idx = Inl TypeError"

text \<open>
  \<open>pts_3d[pt_idx, :] = value\<close> for a two-dimensional value: a row of three cells
  takes a vector of three (or one) numbers; a \<open>3 \<times> M\<close> array does not broadcast
  to it and numpy raises \<open>ValueError\<close>.
\<close>

definition setitem_row :: "pt3 list \<Rightarrow> nat \<Rightarrow> real list list \<Rightarrow> py_error + pt3 list" where
  "setitem_row arr i val = Inl ValueError"

text \<open>
  One iteration of the loop of \<open>init_pts3d_multiview\<close>. \<open>np.where(\<dots>)\<close> without
  \<open>[0]\<close> is a tuple of one index array, and the comprehension runs over the tuple:
  its only \<open>cam_idx\<close> is the whole index array.
\<close>

definition multiview_step ::
  "svd_fun \<Rightarrow> corr_matrix \<Rightarrow> proj_matrix list \<Rightarrow> nat \<Rightarrow> pt3 list \<Rightarrow> py_error + pt3 list" where
  "multiview_step svd C cameras pt_idx pts_3d =
     (case collect (map (\<lambda>cam_idx. list_getitem_ndarray cameras cam_idx)
                     [np_where (\<lambda>k. item C (2 * k) pt_idx \<noteq> None) (mask_rows C)]) of
        Inl e \<Rightarrow> Inl e
      | Inr projection_matrices \<Rightarrow>
          (let pts2d = map (\<lambda>r. the (item C r pt_idx))
                         (np_where (\<lambda>r. item C r pt_idx \<noteq> None) (shape0 C))
           in case linear_triangulation_single_pt_multiview svd pts2d projection_matrices of
                Inl e \<Rightarrow> Inl e
              | Inr val \<Rightarrow> setitem_row pts_3d pt_idx val))"

fun multiview_loop ::
  "svd_fun \<Rightarrow> corr_matrix \<Rightarrow> proj_matrix list \<Rightarrow> nat list \<Rightarrow> pt3 list \<Rightarrow> py_error + pt3 list" where
  "multiview_loop svd C cameras [] pts_3d = Inr pts_3d"
| "multiview_loop svd C cameras (pt_idx # rest) pts_3d =
     (case multiview_step svd C cameras pt_idx pts_3d of
        Inl e \<Rightarrow> Inl e
      | Inr pts_3d' \<Rightarrow> multiview_loop svd C cameras rest pts_3d')"

definition init_pts3d_multiview ::
  "svd_fun \<Rightarrow> corr_matrix \<Rightarrow> proj_matrix list \<Rightarrow> py_error + pt3 list" where
  "init_pts3d_multiview svd C cameras =
     (let n_pts = shape1 C in
      multiview_loop svd C cameras [0..<n_pts] (replicate n_pts (0, 0, 0)))"

section \<open>A small scene\<close>

text \<open>
  Three cameras and three tracks: track 0 is seen by the three cameras, track 1 by
  cameras 0 and 1, track 2 by none. The cameras are numbers, and the external
  routines are simple functions of them and of the first pixel coordinate.
\<close>

definition ex_C :: corr_matrix where
  "ex_C = \<lparr>shape0 = 6, shape1 = 3,
           item = (\<lambda>r t. if t = 0 \<or> (t = 1 \<and> r < 4) then Some (real (10 * r + t)) else None)\<rparr>"

definition ex_cameras :: "real list" where
  "ex_cameras = [1, 2, 3]"

definition ex_ext :: "real externals" where
  "ex_ext = \<lparr>cv2_triangulatePoints =
               (\<lambda>P1 P2 pts1T pts2T. case pts1T of [] \<Rightarrow> Inl ExternalError
                  | r # rs \<Rightarrow>
                      Inr (map (\<lambda>x. (P1 + P2, P1 * P2, (case x of None \<Rightarrow> 0 | Some v \<Rightarrow> v), 1)) r)),
            stereo_corresp_to_xyz =
               (\<lambda>rpc1 rpc2 pts1 pts2. Inr (map (\<lambda>x. (rpc1, rpc2, 0)) pts1, map (\<lambda>x. 0) pts1)),
            latlon_to_ecef_custom = (\<lambda>lat lon alt. (lat, lon, alt))\<rparr>"

definition ex_P :: "proj_matrix" where
  "ex_P = ([1, 0, 0, 0], [0, 1, 0, 0], [0, 0, 1, 0])"

definition ex_Q :: "proj_matrix" where
  "ex_Q = ([1, 0, 0, 1], [0, 1, 0, 0], [0, 0, 1, 0])"

definition ex_C2 :: corr_matrix where
  "ex_C2 = \<lparr>shape0 = 4, shape1 = 1, item = (\<lambda>r t. Some (real r))\<rparr>"

section \<open>The aggregator in floating point\<close>

text \<open>
  The source allocates \<open>avg_pts3d\<close>, \<open>n_pairs\<close> and \<open>new_values\<close> with
  \<open>dtype=np.float32\<close>: every operation of the running average is rounded to single
  precision, and the points of the pairwise triangulator are cast to single
  precision when they are stored in \<open>new_values\<close>. The definitions above compute with
  exact numbers; the definitions of this section follow the same statements with
  the rounding of the source.

  A floating-point value is \<open>Some x\<close> for the finite number \<open>x\<close>, or \<open>None\<close> for an
  infinity or a not-a-number, which the model does not tell apart (nor a negative
  zero from zero). Rounding is to the nearest value of \<open>p\<close> significant bits, a tie
  to the even one, with the exponent bounded below by \<open>emin\<close> (the subnormal
  numbers); a rounded value of \<open>2 ^ emax\<close> or more is an infinity.
\<close>

type_synonym fl = "real option"

type_synonym fpt3 = "fl \<times> fl \<times> fl"

definition round_even :: "real \<Rightarrow> int" where
  "round_even x =
     (let f = \<lfloor>x\<rfloor>; r = x - of_int f
      in if r < 1 / 2 then f else if 1 / 2 < r then f + 1 else if even f then f else f + 1)"

text \<open>For \<open>0 < x\<close>, the exponent \<open>e\<close> with \<open>2 ^ e \<le> x < 2 ^ (e + 1)\<close>.\<close>

definition exponent2 :: "real \<Rightarrow> int" where
  "exponent2 x = (if 1 \<le> x then bitlen \<lfloor>x\<rfloor> - 1 else - bitlen (\<lceil>1 / x\<rceil> - 1))"

definition round_to :: "nat \<Rightarrow> int \<Rightarrow> real \<Rightarrow> real" where
  "round_to p emin x =
     (if x = 0 then 0
      else let e = max (exponent2 \<bar>x\<bar>) emin;
               ulp = 2 powi (e - int p + 1)
           in sgn x * (of_int (round_even (\<bar>x\<bar> / ulp)) * ulp))"

definition fl_round :: "nat \<Rightarrow> int \<Rightarrow> int \<Rightarrow> real \<Rightarrow> fl" where
  "fl_round p emin emax x =
     (let y = round_to p emin x in if 2 powi emax \<le> \<bar>y\<bar> then None else Some y)"

text \<open>Single precision (\<open>np.float32\<close>) and double precision (\<open>np.float64\<close>).\<close>

definition f32 :: "real \<Rightarrow> fl" where
  "f32 = fl_round 24 (- 126) 128"

definition f64 :: "real \<Rightarrow> fl" where
  "f64 = fl_round 53 (- 1022) 1024"

text \<open>
  A sum, difference or product of two floating-point values, rounded by \<open>rnd\<close>: it
  is not finite when an operand is not. A quotient by a finite divisor: it is not
  finite when the divisor is zero.
\<close>

definition fl_op :: "(real \<Rightarrow> fl) \<Rightarrow> (real \<Rightarrow> real \<Rightarrow> real) \<Rightarrow> fl \<Rightarrow> fl \<Rightarrow> fl" where
  "fl_op rnd f a b =
     (case a of None \<Rightarrow> None | Some x \<Rightarrow> (case b of None \<Rightarrow> None | Some y \<Rightarrow> rnd (f x y)))"

definition fl_div :: "(real \<Rightarrow> fl) \<Rightarrow> fl \<Rightarrow> real \<Rightarrow> fl" where
  "fl_div rnd a y = (case a of None \<Rightarrow> None | Some x \<Rightarrow> if y = 0 then None else rnd (x / y))"

text \<open>The cast of a double-precision value, and of a point, to single precision.\<close>

definition cast32 :: "fl \<Rightarrow> fl" where
  "cast32 a = (case a of None \<Rightarrow> None | Some x \<Rightarrow> f32 x)"

definition cast32_pt :: "fpt3 \<Rightarrow> fpt3" where
  "cast32_pt v = (case v of (x, y, z) \<Rightarrow> (cast32 x, cast32 y, cast32 z))"

text \<open>
  \<open>X[:3, :] / X[-1, :]\<close> in double precision, on the finite homogeneous points that
  OpenCV returns: a zero last coordinate gives values that are not finite.
\<close>

definition linear_triangulation_multiple_pts_fl ::
  "'cam externals \<Rightarrow> 'cam \<Rightarrow> 'cam \<Rightarrow> obs \<Rightarrow> obs \<Rightarrow> py_error + fpt3 list" where
  "linear_triangulation_multiple_pts_fl ext P1 P2 pts1 pts2 =
     (case cv2_triangulatePoints ext P1 P2 (transpose pts1) (transpose pts2) of
        Inl e \<Rightarrow> Inl e
      | Inr X \<Rightarrow>
          Inr (map (\<lambda>(x, y, z, w). (fl_div f64 (Some x) w, fl_div f64 (Some y) w, fl_div f64 (Some z) w)) X))"

text \<open>\<open>rpc_triangulation\<close> does no arithmetic of its own: its points are those of the exact model.\<close>

definition rpc_triangulation_fl ::
  "'cam externals \<Rightarrow> 'cam \<Rightarrow> 'cam \<Rightarrow> obs \<Rightarrow> obs \<Rightarrow> py_error + (fpt3 list \<times> real list)" where
  "rpc_triangulation_fl ext rpc1 rpc2 pts1 pts2 =
     (case rpc_triangulation ext rpc1 rpc2 pts1 pts2 of
        Inl e \<Rightarrow> Inl e
      | Inr (pts3d, err) \<Rightarrow> Inr (map (\<lambda>(x, y, z). (Some x, Some y, Some z)) pts3d, err))"

text \<open>\<open>new_values[pt_indices] = new_pts3d\<close> into the single-precision array \<open>new_values\<close>.\<close>

definition setitem_rows_f32 :: "fpt3 list \<Rightarrow> nat list \<Rightarrow> fpt3 list \<Rightarrow> py_error + fpt3 list" where
  "setitem_rows_f32 arr idx vals =
     (if length vals = length idx
      then Inr (fold (\<lambda>(t, v) a. a[t := v]) (zip idx (map cast32_pt vals)) arr)
      else if length vals = 1 then Inr (fold (\<lambda>t a. a[t := cast32_pt (hd vals)]) idx arr)
      else Inl ValueError)"

text \<open>
  \<open>((count[t] - 1.0) * avg[t] + new_v[t]) / count[t]\<close> on single-precision arrays: the
  difference, the product, the sum and the quotient are each rounded.
\<close>

definition running_avg1_f32 :: "real \<Rightarrow> fl \<Rightarrow> fl \<Rightarrow> fl" where
  "running_avg1_f32 c a v = fl_div f32 (fl_op f32 (+) (fl_op f32 (*) (f32 (c - 1)) a) v) c"

definition running_avg_f32 :: "real \<Rightarrow> fpt3 \<Rightarrow> fpt3 \<Rightarrow> fpt3" where
  "running_avg_f32 c a v =
     (case a of (ax, ay, az) \<Rightarrow> case v of (vx, vy, vz) \<Rightarrow>
        (running_avg1_f32 c ax vx, running_avg1_f32 c ay vy, running_avg1_f32 c az vz))"

text \<open>
  \<open>update_avg_pts3d\<close> on the single-precision arrays. The counts are finite
  numbers: \<open>count[t] += 1.0\<close> rounds the sum to single precision.
\<close>

definition update_avg_pts3d_f32 ::
  "fpt3 list \<Rightarrow> real list \<Rightarrow> fpt3 list \<Rightarrow> nat list \<Rightarrow> fpt3 list \<times> real list" where
  "update_avg_pts3d_f32 avg counts new_v t =
     (let counts' = fold (\<lambda>i c. c[i := round_to 24 (- 126) (counts ! i + 1)]) t counts;
          avg' = fold (\<lambda>i a. a[i := running_avg_f32 (counts' ! i) (avg ! i) (new_v ! i)]) t avg
      in (avg', counts'))"

datatype pair_outcome_f32 =
    OutOfRange_f32
  | NoCommonTracks_f32
  | Triangulated_f32 "nat list" "fpt3 list" "fpt3 list"

definition triangulate_pair_f32 ::
  "'cam externals \<Rightarrow> corr_matrix \<Rightarrow> 'cam list \<Rightarrow> string \<Rightarrow> int \<times> int \<Rightarrow> py_error + pair_outcome_f32" where
  "triangulate_pair_f32 ext C cameras cam_model p =
     (case p of (c_i, c_j) \<Rightarrow>
      let n_pts = shape1 C; n_cam = shape0 C div 2 in
      if c_i < int n_cam \<and> c_j < int n_cam then
        (case py_index (mask_rows C) c_i of Inl e \<Rightarrow> Inl e | Inr k_i \<Rightarrow>
        (case py_index (mask_rows C) c_j of Inl e \<Rightarrow> Inl e | Inr k_j \<Rightarrow>
         let pt_indices = np_where (\<lambda>t. mask_arr C k_i t \<and> mask_arr C k_j t) n_pts;
             obs2d_i = obs2d C c_i pt_indices;
             obs2d_j = obs2d C c_j pt_indices
         in if length pt_indices = 0 then Inr NoCommonTracks_f32
            else
              (case py_index (length cameras) c_i of Inl e \<Rightarrow> Inl e | Inr a \<Rightarrow>
              (case py_index (length cameras) c_j of Inl e \<Rightarrow> Inl e | Inr b \<Rightarrow>
              (case (if cam_model \<in> set [''affine'', ''perspective'']
                     then linear_triangulation_multiple_pts_fl ext (cameras ! a) (cameras ! b) obs2d_i obs2d_j
                     else map_sum id fst (rpc_triangulation_fl ext (cameras ! a) (cameras ! b) obs2d_i obs2d_j))
               of Inl e \<Rightarrow> Inl e | Inr new_pts3d \<Rightarrow>
              (case setitem_rows_f32 (replicate n_pts (Some 0, Some 0, Some 0)) pt_indices new_pts3d
               of Inl e \<Rightarrow> Inl e | Inr new_values \<Rightarrow>
                 Inr (Triangulated_f32 pt_indices new_pts3d new_values)))))))
      else Inr OutOfRange_f32)"

fun pairs_loop_f32 ::
  "'cam externals \<Rightarrow> corr_matrix \<Rightarrow> 'cam list \<Rightarrow> string \<Rightarrow> (int \<times> int) list \<Rightarrow>
   fpt3 list \<times> real list \<Rightarrow> py_error + (fpt3 list \<times> real list)" where
  "pairs_loop_f32 ext C cameras cam_model [] st = Inr st"
| "pairs_loop_f32 ext C cameras cam_model (p # ps) st =
     (case triangulate_pair_f32 ext C cameras cam_model p of
        Inl e \<Rightarrow> Inl e
      | Inr OutOfRange_f32 \<Rightarrow> pairs_loop_f32 ext C cameras cam_model ps st
      | Inr NoCommonTracks_f32 \<Rightarrow> pairs_loop_f32 ext C cameras cam_model ps st
      | Inr (Triangulated_f32 pt_indices new_pts3d new_values) \<Rightarrow>
          pairs_loop_f32 ext C cameras cam_model ps
            (update_avg_pts3d_f32 (fst st) (snd st) new_values pt_indices))"

definition init_pts3d_f32 ::
  "'cam externals \<Rightarrow> corr_matrix \<Rightarrow> 'cam list \<Rightarrow> string \<Rightarrow> (int \<times> int) list \<Rightarrow> py_error + fpt3 list" where
  "init_pts3d_f32 ext C cameras cam_model pairs_to_triangulate =
     (let n_pts = shape1 C;
          avg_pts3d = replicate n_pts (Some 0, Some 0, Some 0);
          n_pairs = replicate n_pts 0
      in case pairs_loop_f32 ext C cameras cam_model pairs_to_triangulate (avg_pts3d, n_pairs) of
           Inl e \<Rightarrow> Inl e
         | Inr st \<Rightarrow> Inr (fst st))"

text \<open>
  The estimate of track \<open>t\<close> that a pair produces in single precision: row \<open>t\<close> of
  its \<open>new_values\<close>.
\<close>

definition estimate_f32 ::
  "'cam externals \<Rightarrow> corr_matrix \<Rightarrow> 'cam list \<Rightarrow> string \<Rightarrow> int \<times> int \<Rightarrow> nat \<Rightarrow> fpt3" where
  "estimate_f32 ext C cameras cam_model p t =
     (case triangulate_pair_f32 ext C cameras cam_model p of
        Inr (Triangulated_f32 pt_indices new_pts3d new_values) \<Rightarrow> new_values ! t
      | _ \<Rightarrow> (Some 0, Some 0, Some 0))"

definition estimates_f32 ::
  "'cam externals \<Rightarrow> corr_matrix \<Rightarrow> 'cam list \<Rightarrow> string \<Rightarrow> (int \<times> int) list \<Rightarrow> nat \<Rightarrow> fpt3 list" where
  "estimates_f32 ext C cameras cam_model pairs t =
     map (\<lambda>p. estimate_f32 ext C cameras cam_model p t) (filter (\<lambda>p. co_observed C p t) pairs)"

text \<open>
  The running mean of a list of estimates as \<open>update_avg_pts3d\<close> computes it on one
  row: starting from the zero vector and the count zero, each estimate increments
  the count and is folded into the average, in the order of the list.
\<close>

definition running_mean_step_f32 :: "fpt3 \<Rightarrow> fpt3 \<times> real \<Rightarrow> fpt3 \<times> real" where
  "running_mean_step_f32 v st =
     (case st of (a, c) \<Rightarrow> let c' = round_to 24 (- 126) (c + 1) in (running_avg_f32 c' a v, c'))"

definition running_mean_f32 :: "fpt3 list \<Rightarrow> fpt3" where
  "running_mean_f32 vs = fst (fold running_mean_step_f32 vs ((Some 0, Some 0, Some 0), 0))"

text \<open>
  Two scenes of one track with large coordinates. The third coordinate of a
  triangulated point is the first pixel coordinate of the pair's first camera.
\<close>

definition ex_ext_z :: "real externals" where
  "ex_ext_z = \<lparr>cv2_triangulatePoints =
               (\<lambda>P1 P2 pts1T pts2T. case pts1T of [] \<Rightarrow> Inl ExternalError
                  | r # rs \<Rightarrow> Inr (map (\<lambda>x. (0, 0, (case x of None \<Rightarrow> 0 | Some v \<Rightarrow> v), 1)) r)),
              stereo_corresp_to_xyz =
               (\<lambda>rpc1 rpc2 pts1 pts2. Inr (map (\<lambda>x. (0, 0, 0)) pts1, map (\<lambda>x. 0) pts1)),
              latlon_to_ecef_custom = (\<lambda>lat lon alt. (lat, lon, alt))\<rparr>"

definition ex_C_big :: corr_matrix where
  "ex_C_big = \<lparr>shape0 = 6, shape1 = 1,
               item = (\<lambda>r t. if r = 0 then Some 16777216 else if r = 2 \<or> r = 4 then Some 1 else Some 0)\<rparr>"

definition ex_C_odd :: corr_matrix where
  "ex_C_odd = \<lparr>shape0 = 4, shape1 = 1, item = (\<lambda>r t. if r = 0 then Some 16777217 else Some 0)\<rparr>"

section \<open>Properties of the aggregator\<close>

lemma fold_upd_length: "length (fold (\<lambda>i a. a[i := f i]) t a) = length a"
  by (induction t arbitrary: a) auto

lemma fold_upd_nth:
  "j < length a \<Longrightarrow> fold (\<lambda>i a. a[i := f i]) t a ! j = (if j \<in> set t then f j else a ! j)"
  by (induction t arbitrary: a) (auto simp: nth_list_update)

lemma update_avg_pts3d_length:
  "length (fst (update_avg_pts3d avg counts new_v t)) = length avg"
  "length (snd (update_avg_pts3d avg counts new_v t)) = length counts"
  by (simp_all add: update_avg_pts3d_def Let_def fold_upd_length)

lemma update_avg_pts3d_counts:
  "j < length counts \<Longrightarrow>
   snd (update_avg_pts3d avg counts new_v t) ! j = (if j \<in> set t then counts ! j + 1 else counts ! j)"
  by (simp add: update_avg_pts3d_def Let_def fold_upd_nth)

lemma update_avg_pts3d_avg:
  "j < length avg \<Longrightarrow> j < length counts \<Longrightarrow>
   fst (update_avg_pts3d avg counts new_v t) ! j =
     (if j \<in> set t then running_avg (counts ! j + 1) (avg ! j) (new_v ! j) else avg ! j)"
  by (simp add: update_avg_pts3d_def Let_def fold_upd_nth)

lemma np_where_set: "t \<in> set (np_where m n) \<longleftrightarrow> t < n \<and> m t"
  by (auto simp: np_where_def)

lemma triangulate_pair_OutOfRange:
  "triangulate_pair ext C cams cm p = Inr OutOfRange \<Longrightarrow> \<not> co_observed C p t"
  by (auto simp: triangulate_pair_def co_observed_def Let_def split: prod.splits sum.splits if_splits)

lemma triangulate_pair_NoCommonTracks:
  "triangulate_pair ext C cams cm p = Inr NoCommonTracks \<Longrightarrow> t < shape1 C \<Longrightarrow> \<not> co_observed C p t"
  by (auto simp: triangulate_pair_def co_observed_def Let_def np_where_def filter_empty_conv
      split: prod.splits sum.splits if_splits)

lemma triangulate_pair_Triangulated:
  "triangulate_pair ext C cams cm p = Inr (Triangulated idx pts nv) \<Longrightarrow>
     (t \<in> set idx \<longleftrightarrow> t < shape1 C \<and> co_observed C p t)"
  by (auto simp: triangulate_pair_def co_observed_def Let_def np_where_set
      split: prod.splits sum.splits if_splits)

lemma running_avg_scale:
  "0 \<le> c \<Longrightarrow> pt_scale (c + 1) (running_avg (c + 1) a v) = pt_add (pt_scale c a) v"
  by (cases a; cases v) (simp add: pt_scale_def pt_add_def running_avg_def)

lemma pt_add_assoc: "pt_add (pt_add a b) c = pt_add a (pt_add b c)"
  by (cases a; cases b; cases c) (simp add: pt_add_def)

lemma pt_add_zero: "pt_add a (0, 0, 0) = a"
  by (cases a) (simp add: pt_add_def)

lemma estimates_Cons:
  "estimates ext C cams cm (p # ps) t =
     (if co_observed C p t then estimate ext C cams cm p t # estimates ext C cams cm ps t
      else estimates ext C cams cm ps t)"
  by (simp add: estimates_def)

lemma pairs_loop_inv:
  "pairs_loop ext C cams cm ps (avg, cnt) = Inr (avg', cnt') \<Longrightarrow>
   length avg = shape1 C \<Longrightarrow> length cnt = shape1 C \<Longrightarrow> t < shape1 C \<Longrightarrow> 0 \<le> cnt ! t \<Longrightarrow>
   length avg' = shape1 C \<and> length cnt' = shape1 C \<and>
   cnt' ! t = cnt ! t + real (length (estimates ext C cams cm ps t)) \<and>
   pt_scale (cnt' ! t) (avg' ! t) =
     pt_add (pt_scale (cnt ! t) (avg ! t)) (pt_sum (estimates ext C cams cm ps t)) \<and>
   (estimates ext C cams cm ps t = [] \<longrightarrow> avg' ! t = avg ! t)"
proof (induction ps arbitrary: avg cnt)
  case Nil
  then show ?case by (simp add: estimates_def pt_add_zero)
next
  case (Cons p ps)
  show ?case
  proof (cases "triangulate_pair ext C cams cm p")
    case (Inl e)
    with Cons.prems(1) show ?thesis by simp
  next
    case (Inr out)
    show ?thesis
    proof (cases out)
      case OutOfRange
      with Inr Cons.prems have run: "pairs_loop ext C cams cm ps (avg, cnt) = Inr (avg', cnt')"
        by simp
      have "\<not> co_observed C p t"
        using Inr OutOfRange by (simp add: triangulate_pair_OutOfRange)
      then show ?thesis
        using Cons.IH [OF run Cons.prems(2-5)] by (auto simp: estimates_Cons)
    next
      case NoCommonTracks
      with Inr Cons.prems have run: "pairs_loop ext C cams cm ps (avg, cnt) = Inr (avg', cnt')"
        by simp
      have "\<not> co_observed C p t"
        using Inr NoCommonTracks Cons.prems(4) by (simp add: triangulate_pair_NoCommonTracks)
      then show ?thesis
        using Cons.IH [OF run Cons.prems(2-5)] by (auto simp: estimates_Cons)
    next
      case (Triangulated idx pts nv)
      define avg1 where "avg1 = fst (update_avg_pts3d avg cnt nv idx)"
      define cnt1 where "cnt1 = snd (update_avg_pts3d avg cnt nv idx)"
      have run: "pairs_loop ext C cams cm ps (avg1, cnt1) = Inr (avg', cnt')"
        using Inr Triangulated Cons.prems(1) by (simp add: avg1_def cnt1_def)
      have len: "length avg1 = shape1 C" "length cnt1 = shape1 C"
        using Cons.prems(2,3) by (simp_all add: avg1_def cnt1_def update_avg_pts3d_length)
      have mem: "t \<in> set idx \<longleftrightarrow> co_observed C p t"
        using triangulate_pair_Triangulated [of ext C cams cm p idx pts nv t] Inr Triangulated Cons.prems(4)
        by simp
      have est: "estimate ext C cams cm p t = nv ! t"
        using Inr Triangulated by (simp add: estimate_def)
      have cnt1: "cnt1 ! t = (if co_observed C p t then cnt ! t + 1 else cnt ! t)"
        using Cons.prems(3,4) mem by (simp add: cnt1_def update_avg_pts3d_counts)
      have avg1: "avg1 ! t = (if co_observed C p t then running_avg (cnt ! t + 1) (avg ! t) (nv ! t) else avg ! t)"
        using Cons.prems(2,3,4) mem by (simp add: avg1_def update_avg_pts3d_avg)
      have nonneg: "0 \<le> cnt1 ! t"
        using cnt1 Cons.prems(5) by simp
      note IH = Cons.IH [OF run len Cons.prems(4) nonneg]
      show ?thesis
      proof (cases "co_observed C p t")
        case True
        have "pt_scale (cnt1 ! t) (avg1 ! t) = pt_add (pt_scale (cnt ! t) (avg ! t)) (nv ! t)"
          using True cnt1 avg1 Cons.prems(5) by (simp add: running_avg_scale)
        then show ?thesis
          using IH True cnt1 est by (auto simp: estimates_Cons pt_add_assoc)
      next
        case False
        then show ?thesis
          using IH cnt1 avg1 by (auto simp: estimates_Cons)
      qed
    qed
  qed
qed

lemma pt_scale_zero: "pt_scale 0 a = (0, 0, 0)"
  by (cases a) (simp add: pt_scale_def)

lemma pt_add_zero_left: "pt_add (0, 0, 0) a = a"
  by (cases a) (simp add: pt_add_def)

lemma pairs_loop_length:
  "pairs_loop ext C cams cm ps st = Inr st' \<Longrightarrow>
   length (fst st') = length (fst st) \<and> length (snd st') = length (snd st)"
proof (induction ps arbitrary: st)
  case Nil
  then show ?case by simp
next
  case (Cons p ps)
  then show ?case
    by (auto split: sum.splits pair_outcome.splits dest!: Cons.IH simp: update_avg_pts3d_length)
qed

lemma init_pts3d_closed_form:
  assumes "init_pts3d ext C cams cm ps = Inr avg" and "t < shape1 C"
  shows "avg ! t = pt_mean (estimates ext C cams cm ps t)"
proof -
  let ?n = "shape1 C"
  from assms(1) obtain cnt where
    run: "pairs_loop ext C cams cm ps (replicate ?n (0, 0, 0), replicate ?n 0) = Inr (avg, cnt)"
    by (auto simp: init_pts3d_def Let_def split: sum.splits)
  let ?est = "estimates ext C cams cm ps t"
  have inv: "cnt ! t = real (length ?est) \<and>
      pt_scale (cnt ! t) (avg ! t) = pt_sum ?est \<and> (?est = [] \<longrightarrow> avg ! t = (0, 0, 0))"
    using pairs_loop_inv [OF run, of t] assms(2) by (auto simp: pt_scale_zero pt_add_zero_left)
  show ?thesis
  proof (cases "?est = []")
    case True
    with inv show ?thesis by (simp add: pt_mean_def)
  next
    case False
    then have pos: "real (length ?est) \<noteq> 0" by simp
    have "pt_scale (1 / real (length ?est)) (pt_scale (real (length ?est)) (avg ! t)) = avg ! t"
      using pos by (cases "avg ! t") (simp add: pt_scale_def)
    moreover have "pt_scale (real (length ?est)) (avg ! t) = pt_sum ?est"
      using inv by auto
    ultimately have "avg ! t = pt_scale (1 / real (length ?est)) (pt_sum ?est)"
      by simp
    with False show ?thesis by (simp add: pt_mean_def)
  qed
qed

lemma pairs_loop_append:
  "pairs_loop ext C cams cm (xs @ ys) st =
     (case pairs_loop ext C cams cm xs st of Inl e \<Rightarrow> Inl e | Inr st' \<Rightarrow> pairs_loop ext C cams cm ys st')"
  by (induction xs arbitrary: st) (auto split: sum.splits pair_outcome.splits)

lemma pairs_loop_returns_iff:
  "(\<exists>st'. pairs_loop ext C cams cm ps st = Inr st') \<longleftrightarrow>
   (\<forall>p \<in> set ps. \<exists>out. triangulate_pair ext C cams cm p = Inr out)"
  by (induction ps arbitrary: st) (auto split: sum.splits pair_outcome.splits)





lemma init_pts3d_length:
  "init_pts3d ext C cams cm ps = Inr avg \<Longrightarrow> length avg = shape1 C"
  by (auto simp: init_pts3d_def Let_def split: sum.splits dest!: pairs_loop_length)

lemma fold_zip_upd_notin:
  "j \<notin> set idx \<Longrightarrow> fold (\<lambda>(t, v) a. a[t := v]) (zip idx vals) arr ! j = arr ! j"
proof (induction idx arbitrary: vals arr)
  case Nil
  then show ?case by simp
next
  case (Cons i idx)
  then show ?case by (cases vals) auto
qed

lemma fold_zip_upd_length:
  "length (fold (\<lambda>(t, v) a. a[t := v]) (zip idx vals) arr) = length arr"
proof (induction idx arbitrary: vals arr)
  case Nil
  then show ?case by simp
next
  case (Cons i idx)
  then show ?case by (cases vals) auto
qed

lemma fold_zip_upd_nth:
  "distinct idx \<Longrightarrow> length vals = length idx \<Longrightarrow> k < length idx \<Longrightarrow> idx ! k < length arr \<Longrightarrow>
   fold (\<lambda>(t, v) a. a[t := v]) (zip idx vals) arr ! (idx ! k) = vals ! k"
proof (induction idx arbitrary: vals arr k)
  case Nil
  then show ?case by simp
next
  case (Cons i idx)
  then obtain v vs where vals: "vals = v # vs" by (cases vals) auto
  show ?case
  proof (cases k)
    case 0
    then show ?thesis
      using Cons.prems vals by (simp add: fold_zip_upd_notin)
  next
    case (Suc k')
    then show ?thesis
      using Cons.prems vals Cons.IH [of vs k' "arr[i := v]"] by simp
  qed
qed

lemma triangulate_pair_unrecognized:
  "cm \<noteq> ''affine'' \<Longrightarrow> cm \<noteq> ''perspective'' \<Longrightarrow>
   triangulate_pair ext C cams cm p = triangulate_pair ext C cams ''rpc'' p"
proof -
  assume "cm \<noteq> ''affine''" and "cm \<noteq> ''perspective''"
  then have h: "(cm \<in> set [''affine'', ''perspective'']) = False"
    by simp
  have h': "(''rpc'' \<in> set [''affine'', ''perspective'']) = False"
    by simp
  show ?thesis
    unfolding triangulate_pair_def h h' by (rule refl)
qed

lemma pairs_loop_unrecognized:
  "cm \<noteq> ''affine'' \<Longrightarrow> cm \<noteq> ''perspective'' \<Longrightarrow>
   pairs_loop ext C cams cm ps st = pairs_loop ext C cams ''rpc'' ps st"
  by (induction ps arbitrary: st) (simp_all add: triangulate_pair_unrecognized [of cm] split: sum.splits pair_outcome.splits)

lemma triangulate_pair_out_of_range:
  "int (shape0 C div 2) \<le> c_i \<or> int (shape0 C div 2) \<le> c_j \<Longrightarrow>
   triangulate_pair ext C cams cm (c_i, c_j) = Inr OutOfRange"
  by (auto simp: triangulate_pair_def Let_def)

lemma pairs_loop_skip:
  "triangulate_pair ext C cams cm p = Inr OutOfRange \<Longrightarrow>
   pairs_loop ext C cams cm (ps1 @ p # ps2) st = pairs_loop ext C cams cm (ps1 @ ps2) st"
  by (simp add: pairs_loop_append split: sum.splits)

lemma init_pts3d_empty:
  "init_pts3d ext C cams cm [] = Inr (replicate (shape1 C) (0, 0, 0))"
  by (simp add: init_pts3d_def)

lemma init_pts3d_no_contribution:
  assumes "init_pts3d ext C cams cm ps = Inr avg" and "t < shape1 C"
    and "filter (\<lambda>p. co_observed C p t) ps = []"
  shows "avg ! t = (0, 0, 0)"
proof -
  have "estimates ext C cams cm ps t = []"
    using assms(3) by (simp add: estimates_def)
  then show ?thesis
    using init_pts3d_closed_form [OF assms(1,2)] by (simp add: pt_mean_def)
qed

lemma py_index_Inr: "py_index n i = Inr k \<Longrightarrow> k = wrap_index n i \<and> - int n \<le> i \<and> i < int n"
  by (auto simp: py_index_def wrap_index_def split: if_splits)

lemma py_index_Inl: "py_index n i = Inl e \<Longrightarrow> e = IndexError \<and> (i < - int n \<or> int n \<le> i)"
  by (auto simp: py_index_def split: if_splits)

lemma py_index_below: "i < - int n \<Longrightarrow> py_index n i = Inl IndexError"
  by (simp add: py_index_def)

lemma triangulate_pair_guard:
  "c_i < int (shape0 C div 2) \<Longrightarrow> c_j < int (shape0 C div 2) \<Longrightarrow>
   triangulate_pair ext C cams cm (c_i, c_j) \<noteq> Inr OutOfRange"
  by (auto simp: triangulate_pair_def Let_def split: sum.splits)

lemma triangulate_pair_indices:
  "triangulate_pair ext C cams cm (c_i, c_j) = Inr (Triangulated idx pts nv) \<Longrightarrow>
   idx = np_where (\<lambda>t. mask_arr C (wrap_index (mask_rows C) c_i) t \<and>
                        mask_arr C (wrap_index (mask_rows C) c_j) t) (shape1 C)"
  by (auto simp: triangulate_pair_def Let_def split: sum.splits if_splits dest!: py_index_Inr)

lemma triangulate_pair_below:
  assumes "c_i < int (shape0 C div 2)" and "c_j < int (shape0 C div 2)"
    and "c_i < - int (mask_rows C) \<or> c_j < - int (mask_rows C)"
  shows "triangulate_pair ext C cams cm (c_i, c_j) = Inl IndexError"
proof (cases "c_i < - int (mask_rows C)")
  case True
  then show ?thesis
    using assms(1,2) by (simp add: triangulate_pair_def Let_def py_index_below)
next
  case False
  with assms(3) have "c_j < - int (mask_rows C)" by simp
  then show ?thesis
    using assms(1,2) by (auto simp: triangulate_pair_def Let_def py_index_below split: sum.splits dest: py_index_Inl)
qed

lemma lookup_Some: "lookup s a = Some x \<longleftrightarrow> a < length s \<and> s ! a = x"
  by (auto simp: lookup_def)

lemma pairs_loop_st_sim:
  assumes "lookup s c = Some (Matrix C)"
    and "lookup s a = Some (Points avg)"
    and "lookup s n = Some (Reals cnt)"
  shows "case pairs_loop ext C cams cm ps (avg, cnt) of
           Inl e \<Rightarrow> pairs_loop_st ext c cams cm a n ps s = Inl e
         | Inr st' \<Rightarrow>
             (\<exists>s'. pairs_loop_st ext c cams cm a n ps s = Inr s' \<and> length s \<le> length s' \<and>
                lookup s' a = Some (Points (fst st')) \<and> lookup s' n = Some (Reals (snd st')) \<and>
                (\<forall>k < length s. k \<noteq> a \<longrightarrow> k \<noteq> n \<longrightarrow> s' ! k = s ! k))"
  using assms
proof (induction ps arbitrary: s avg cnt)
  case Nil
  then show ?case by simp
next
  case (Cons p ps)
  show ?case
  proof (cases "triangulate_pair ext C cams cm p")
    case (Inl e)
    then show ?thesis using Cons.prems(1) by simp
  next
    case (Inr out)
    show ?thesis
    proof (cases out)
      case OutOfRange
      have step_st: "pairs_loop_st ext c cams cm a n (p # ps) s = pairs_loop_st ext c cams cm a n ps s"
        using Cons.prems(1) Inr OutOfRange by simp
      have step: "pairs_loop ext C cams cm (p # ps) (avg, cnt) = pairs_loop ext C cams cm ps (avg, cnt)"
        using Inr OutOfRange by simp
      show ?thesis
        unfolding step step_st by (rule Cons.IH [OF Cons.prems])
    next
      case NoCommonTracks
      have step_st: "pairs_loop_st ext c cams cm a n (p # ps) s = pairs_loop_st ext c cams cm a n ps s"
        using Cons.prems(1) Inr NoCommonTracks by simp
      have step: "pairs_loop ext C cams cm (p # ps) (avg, cnt) = pairs_loop ext C cams cm ps (avg, cnt)"
        using Inr NoCommonTracks by simp
      show ?thesis
        unfolding step step_st by (rule Cons.IH [OF Cons.prems])
    next
      case (Triangulated idx pts nv)
      define s1 where "s1 = s @ [Points nv]"
      define avg' where "avg' = fst (update_avg_pts3d avg cnt nv idx)"
      define cnt' where "cnt' = snd (update_avg_pts3d avg cnt nv idx)"
      define s2 where "s2 = s1[n := Reals cnt', a := Points avg']"
      have bounds: "c < length s" "a < length s" "n < length s"
        and cells: "s ! c = Matrix C" "s ! a = Points avg" "s ! n = Reals cnt"
        using Cons.prems by (simp_all add: lookup_Some)
      have diff: "a \<noteq> n" "c \<noteq> a" "c \<noteq> n"
        using cells by auto
      have l1: "lookup s1 a = Some (Points avg)" "lookup s1 n = Some (Reals cnt)"
        "lookup s1 (length s) = Some (Points nv)"
        using bounds cells by (simp_all add: lookup_def s1_def nth_append)
      have upd: "update_avg_pts3d avg cnt nv idx = (avg', cnt')"
        by (simp add: avg'_def cnt'_def)
      have step_st: "pairs_loop_st ext c cams cm a n (p # ps) s = pairs_loop_st ext c cams cm a n ps s2"
        using Cons.prems(1) Inr Triangulated l1 upd
        by (simp add: alloc_def s1_def [symmetric] s2_def)
      have step: "pairs_loop ext C cams cm (p # ps) (avg, cnt) = pairs_loop ext C cams cm ps (avg', cnt')"
        using Inr Triangulated by (simp add: avg'_def cnt'_def)
      have len2: "length s2 = Suc (length s)"
        by (simp add: s2_def s1_def)
      have l2: "lookup s2 c = Some (Matrix C)" "lookup s2 a = Some (Points avg')"
        "lookup s2 n = Some (Reals cnt')"
        using bounds cells diff by (simp_all add: lookup_def s2_def s1_def nth_append)
      have frame2: "\<And>k. k < length s \<Longrightarrow> k \<noteq> a \<Longrightarrow> k \<noteq> n \<Longrightarrow> s2 ! k = s ! k"
        by (simp add: s2_def s1_def nth_append)
      note IH = Cons.IH [OF l2]
      show ?thesis
      proof (cases "pairs_loop ext C cams cm ps (avg', cnt')")
        case (Inl e)
        then show ?thesis using IH step step_st by simp
      next
        case (Inr st')
        with IH obtain s' where s':
          "pairs_loop_st ext c cams cm a n ps s2 = Inr s'" "length s2 \<le> length s'"
          "lookup s' a = Some (Points (fst st'))" "lookup s' n = Some (Reals (snd st'))"
          "\<forall>k < length s2. k \<noteq> a \<longrightarrow> k \<noteq> n \<longrightarrow> s' ! k = s2 ! k"
          by auto
        have "\<forall>k < length s. k \<noteq> a \<longrightarrow> k \<noteq> n \<longrightarrow> s' ! k = s ! k"
          using s'(5) frame2 len2 by auto
        then show ?thesis
          using Inr step step_st s'(1-4) len2 by auto
      qed
    qed
  qed
qed

lemma init_pts3d_st_refines:
  assumes "lookup s c = Some (Matrix C)"
  shows "case init_pts3d ext C cams cm ps of
           Inl e \<Rightarrow> init_pts3d_st ext s c cams cm ps = Inl e
         | Inr avg \<Rightarrow>
             (\<exists>s'. init_pts3d_st ext s c cams cm ps = Inr (length s, s') \<and>
                lookup s' (length s) = Some (Points avg) \<and>
                (\<forall>k < length s. s' ! k = s ! k))"
proof -
  let ?n = "shape1 C"
  define s2 where "s2 = (s @ [Points (replicate ?n (0, 0, 0))]) @ [Reals (replicate ?n 0)]"
  have c: "c < length s" "s ! c = Matrix C"
    using assms by (simp_all add: lookup_Some)
  have l: "lookup s2 c = Some (Matrix C)"
    "lookup s2 (length s) = Some (Points (replicate ?n (0, 0, 0)))"
    "lookup s2 (Suc (length s)) = Some (Reals (replicate ?n 0))"
    using c by (simp_all add: lookup_def s2_def nth_append)
  have st: "init_pts3d_st ext s c cams cm ps =
      (case pairs_loop_st ext c cams cm (length s) (Suc (length s)) ps s2 of
         Inl e \<Rightarrow> Inl e | Inr s' \<Rightarrow> Inr (length s, s'))"
    using assms by (simp add: init_pts3d_st_def alloc_def s2_def Let_def)
  note sim = pairs_loop_st_sim [OF l, of ext cams cm ps]
  show ?thesis
  proof (cases "pairs_loop ext C cams cm ps (replicate ?n (0, 0, 0), replicate ?n 0)")
    case (Inl e)
    then show ?thesis using sim st by (simp add: init_pts3d_def)
  next
    case (Inr st')
    with sim obtain s' where s':
      "pairs_loop_st ext c cams cm (length s) (Suc (length s)) ps s2 = Inr s'"
      "lookup s' (length s) = Some (Points (fst st'))"
      "\<forall>k < length s2. k \<noteq> length s \<longrightarrow> k \<noteq> Suc (length s) \<longrightarrow> s' ! k = s2 ! k"
      by auto
    have "\<forall>k < length s. s' ! k = s ! k"
      using s'(3) by (auto simp: s2_def nth_append)
    then show ?thesis
      using Inr st s'(1,2) by (simp add: init_pts3d_def)
  qed
qed

subsection \<open>The slices of a negative index\<close>

text \<open>
  The rows of \<open>C\<close> that \<open>C[2 * c : 2 * c + 2]\<close> reads: rows \<open>2c\<close> and \<open>2c + 1\<close> for an index
  in range, the two rows counted from the end for \<open>c \<le> -2\<close>, and no row at all for
  \<open>c = -1\<close>, whose slice \<open>-2:0\<close> is empty.
\<close>

lemma py_slice_pair:
  "0 \<le> c \<Longrightarrow> 2 * c + 2 \<le> int n \<Longrightarrow> py_slice n (2 * c) (2 * c + 2) = [nat (2 * c), Suc (nat (2 * c))]"
proof -
  assume a: "0 \<le> c" "2 * c + 2 \<le> int n"
  then have "slice_bound n (2 * c) = nat (2 * c)" "slice_bound n (2 * c + 2) = Suc (Suc (nat (2 * c)))"
    by (auto simp: slice_bound_def min_def)
  then show ?thesis
    by (simp add: py_slice_def upt_rec)
qed

lemma py_slice_negative:
  "c \<le> - 2 \<Longrightarrow> - int n \<le> 2 * c \<Longrightarrow>
   py_slice n (2 * c) (2 * c + 2) = [nat (int n + 2 * c), Suc (nat (int n + 2 * c))]"
proof -
  assume a: "c \<le> - 2" "- int n \<le> 2 * c"
  then have "slice_bound n (2 * c) = nat (int n + 2 * c)"
    "slice_bound n (2 * c + 2) = Suc (Suc (nat (int n + 2 * c)))"
    by (auto simp: slice_bound_def max_def)
  then show ?thesis
    by (simp add: py_slice_def upt_rec)
qed

lemma py_slice_minus_one: "py_slice n (2 * (- 1)) (2 * (- 1) + 2) = []"
  by (simp add: py_slice_def slice_bound_def)

lemma obs2d_minus_one: "obs2d C (- 1) idx = map (\<lambda>t. []) idx"
  using py_slice_minus_one [of "shape0 C"] by (simp add: obs2d_def)

lemma obs2d_in_range:
  "0 \<le> c \<Longrightarrow> c < int (shape0 C div 2) \<Longrightarrow>
   obs2d C c idx = map (\<lambda>t. [item C (nat (2 * c)) t, item C (Suc (nat (2 * c))) t]) idx"
proof -
  assume a: "0 \<le> c" "c < int (shape0 C div 2)"
  then have "2 * c + 2 \<le> int (shape0 C)" by linarith
  with a(1) show ?thesis
    by (simp add: obs2d_def py_slice_pair)
qed

subsection \<open>When the call returns\<close>

text \<open>
  \<open>init_pts3d\<close> returns an array when no index of the pair list is negative, the list
  of cameras has a camera for each pair of rows of \<open>C\<close>, and the external routines
  return one point per correspondence.
\<close>

lemma transpose_pairs:
  assumes "idx \<noteq> []"
  shows "transpose (map (\<lambda>t. [f t, g t]) idx) \<noteq> [] \<and>
         length (hd (transpose (map (\<lambda>t. [f t, g t]) idx))) = length idx"
proof -
  let ?xs = "map (\<lambda>t. [f t, g t]) idx"
  have "transpose ?xs = map (\<lambda>i. map (\<lambda>j. ?xs ! j ! i) [0..<length ?xs]) [0..<2]"
    by (rule transpose_rectangle) (use assms in auto)
  then show ?thesis
    by (simp add: upt_rec [of 0 2])
qed

lemma triangulate_pair_returns:
  assumes nonneg: "0 \<le> c_i" "0 \<le> c_j"
    and cams: "shape0 C div 2 \<le> length cams"
    and cv2: "\<And>P1 P2 a b. a \<noteq> [] \<Longrightarrow>
        \<exists>X. cv2_triangulatePoints ext P1 P2 a b = Inr X \<and> length X = length (hd a)"
    and rpc: "\<And>r1 r2 a b.
        \<exists>L err. stereo_corresp_to_xyz ext r1 r2 a b = Inr (L, err) \<and> length L = length a"
  shows "\<exists>out. triangulate_pair ext C cams cm (c_i, c_j) = Inr out"
proof (cases "c_i < int (shape0 C div 2) \<and> c_j < int (shape0 C div 2)")
  case False
  then show ?thesis
    by (auto simp: triangulate_pair_def Let_def)
next
  case True
  have rows: "shape0 C div 2 \<le> mask_rows C"
    by (simp add: mask_rows_def)
  have ki: "py_index (mask_rows C) c_i = Inr (nat c_i)" and kj: "py_index (mask_rows C) c_j = Inr (nat c_j)"
    using True nonneg rows by (auto simp: py_index_def)
  have ai: "py_index (length cams) c_i = Inr (nat c_i)" and aj: "py_index (length cams) c_j = Inr (nat c_j)"
    using True nonneg cams by (auto simp: py_index_def)
  define idx where "idx = np_where (\<lambda>t. mask_arr C (nat c_i) t \<and> mask_arr C (nat c_j) t) (shape1 C)"
  show ?thesis
  proof (cases "idx = []")
    case True
    then show ?thesis
      using \<open>c_i < int (shape0 C div 2) \<and> c_j < int (shape0 C div 2)\<close> ki kj
      by (simp add: triangulate_pair_def Let_def idx_def)
  next
    case False
    define oi where "oi = obs2d C c_i idx"
    define oj where "oj = obs2d C c_j idx"
    have oi_eq: "oi = map (\<lambda>t. [item C (nat (2 * c_i)) t, item C (Suc (nat (2 * c_i))) t]) idx"
      using True nonneg by (simp add: oi_def obs2d_in_range)
    have oi: "transpose oi \<noteq> []" "length (hd (transpose oi)) = length idx" "length oi = length idx"
      using transpose_pairs [OF False, of "item C (nat (2 * c_i))" "item C (Suc (nat (2 * c_i)))"]
      by (simp_all add: oi_eq)
    have "\<exists>pts. (if cm \<in> set [''affine'', ''perspective'']
          then linear_triangulation_multiple_pts ext (cams ! nat c_i) (cams ! nat c_j) oi oj
          else map_sum id fst (rpc_triangulation ext (cams ! nat c_i) (cams ! nat c_j) oi oj)) = Inr pts \<and>
        length pts = length idx"
    proof (cases "cm \<in> set [''affine'', ''perspective'']")
      case True
      obtain X where "cv2_triangulatePoints ext (cams ! nat c_i) (cams ! nat c_j) (transpose oi) (transpose oj) = Inr X"
        "length X = length idx"
        using cv2 [OF oi(1)] oi(2) by metis
      then show ?thesis
        using True by (simp add: linear_triangulation_multiple_pts_def)
    next
      case False
      obtain L err where "stereo_corresp_to_xyz ext (cams ! nat c_i) (cams ! nat c_j) oi oj = Inr (L, err)"
        "length L = length idx"
        using rpc [of "cams ! nat c_i" "cams ! nat c_j" oi oj] oi(3) by auto
      then show ?thesis
        using False by (simp add: rpc_triangulation_def)
    qed
    then obtain pts where pts: "(if cm \<in> set [''affine'', ''perspective'']
          then linear_triangulation_multiple_pts ext (cams ! nat c_i) (cams ! nat c_j) oi oj
          else map_sum id fst (rpc_triangulation ext (cams ! nat c_i) (cams ! nat c_j) oi oj)) = Inr pts"
      "length pts = length idx"
      by blast
    have "\<exists>nv. setitem_rows (replicate (shape1 C) (0, 0, 0)) idx pts = Inr nv"
      using pts(2) by (simp add: setitem_rows_def)
    then obtain nv where nv: "setitem_rows (replicate (shape1 C) (0, 0, 0)) idx pts = Inr nv"
      by blast
    have "triangulate_pair ext C cams cm (c_i, c_j) = Inr (Triangulated idx pts nv)"
      using True ki kj ai aj False pts(1) nv
      by (auto simp: triangulate_pair_def Let_def idx_def [symmetric] oi_def [symmetric] oj_def [symmetric]
          split: if_splits)
    then show ?thesis by blast
  qed
qed

lemma init_pts3d_returns:
  assumes "\<forall>p \<in> set ps. 0 \<le> fst p \<and> 0 \<le> snd p"
    and "shape0 C div 2 \<le> length cams"
    and "\<And>P1 P2 a b. a \<noteq> [] \<Longrightarrow>
        \<exists>X. cv2_triangulatePoints ext P1 P2 a b = Inr X \<and> length X = length (hd a)"
    and "\<And>r1 r2 a b.
        \<exists>L err. stereo_corresp_to_xyz ext r1 r2 a b = Inr (L, err) \<and> length L = length a"
  shows "\<exists>avg. init_pts3d ext C cams cm ps = Inr avg"
proof -
  have "\<forall>p \<in> set ps. \<exists>out. triangulate_pair ext C cams cm p = Inr out"
  proof
    fix p assume "p \<in> set ps"
    with assms(1) have "0 \<le> fst p" "0 \<le> snd p" by auto
    then show "\<exists>out. triangulate_pair ext C cams cm p = Inr out"
      using triangulate_pair_returns [of "fst p" "snd p" C cams ext cm] assms(2,3,4) by simp
  qed
  then have "\<exists>st'. pairs_loop ext C cams cm ps
      (replicate (shape1 C) (0, 0, 0), replicate (shape1 C) 0) = Inr st'"
    by (simp only: pairs_loop_returns_iff)
  then show ?thesis
    by (auto simp: init_pts3d_def Let_def)
qed

section \<open>The scene, evaluated\<close>

lemma ex_init_pts3d:
  "init_pts3d ex_ext ex_C ex_cameras ''perspective'' [(0, 1), (1, 2)] =
     Inr [(4, 4, 10), (3, 2, 1), (0, 0, 0)]"
  by code_simp

lemma ex_shape1: "shape1 ex_C = 3"
  by (simp add: ex_C_def)

section \<open>Rounding\<close>

lemma powi_nat: "0 \<le> k \<Longrightarrow> (2::real) powi k = 2 ^ nat k"
  by (simp add: power_int_def)

lemma bitlen_pos:
  assumes "0 < m"
  shows "1 \<le> bitlen m"
proof (rule ccontr)
  assume "\<not> 1 \<le> bitlen m"
  then have "nat (bitlen m) = 0" by simp
  then have "m < 1" using bitlen_bounds [OF assms] by simp
  with assms show False by simp
qed

lemma bitlen_real_bounds:
  assumes "0 < m"
  shows "2 powi (bitlen m - 1) \<le> real_of_int m" and "real_of_int m + 1 \<le> 2 powi (bitlen m)"
proof -
  have b: "2 ^ nat (bitlen m - 1) \<le> m" "m < 2 ^ nat (bitlen m)"
    using bitlen_bounds [OF assms] by simp_all
  have pos: "1 \<le> bitlen m"
    using assms by (rule bitlen_pos)
  have "(2::real) powi (bitlen m - 1) = of_int (2 ^ nat (bitlen m - 1))"
    using pos by (simp add: powi_nat)
  also have "\<dots> \<le> of_int m"
    using b(1) of_int_le_iff by blast
  finally show "2 powi (bitlen m - 1) \<le> real_of_int m" .
  have "m + 1 \<le> 2 ^ nat (bitlen m)" using b(2) by simp
  then have "of_int (m + 1) \<le> (of_int (2 ^ nat (bitlen m)) :: real)"
    using of_int_le_iff by blast
  also have "\<dots> = 2 powi (bitlen m)"
    using pos by (simp add: powi_nat)
  finally show "real_of_int m + 1 \<le> 2 powi (bitlen m)" by simp
qed

lemma exponent2_ge1:
  assumes "1 \<le> x"
  shows "2 powi (exponent2 x) \<le> x \<and> x < 2 powi (exponent2 x + 1)"
proof -
  let ?m = "\<lfloor>x\<rfloor>"
  have m: "0 < ?m" using assms by simp
  note b = bitlen_real_bounds [OF m]
  have "2 powi (bitlen ?m - 1) \<le> x"
    using b(1) by linarith
  moreover have "x < 2 powi (bitlen ?m)"
    using b(2) by linarith
  ultimately show ?thesis using assms by (simp add: exponent2_def)
qed

lemma exponent2_lt1:
  assumes "0 < x" and "x < 1"
  shows "2 powi (exponent2 x) \<le> x \<and> x < 2 powi (exponent2 x + 1)"
proof -
  let ?m = "\<lceil>1 / x\<rceil> - 1"
  have inv: "1 < 1 / x" using assms by simp
  then have m: "0 < ?m" by linarith
  have lo: "real_of_int ?m < 1 / x" by linarith
  have hi: "1 / x \<le> real_of_int ?m + 1" by linarith
  note b = bitlen_real_bounds [OF m]
  have p1: "(0::real) < 2 powi (bitlen ?m)" and p2: "(0::real) < 2 powi (bitlen ?m - 1)"
    by (simp_all add: zero_less_power_int)
  have "1 / x \<le> 2 powi (bitlen ?m)" using hi b(2) by linarith
  then have "1 / 2 powi (bitlen ?m) \<le> x"
    using assms(1) p1 by (simp add: field_simps)
  then have A: "2 powi (- bitlen ?m) \<le> x"
    by (simp add: power_int_minus field_simps)
  have "2 powi (bitlen ?m - 1) < 1 / x" using lo b(1) by linarith
  then have "x < 1 / 2 powi (bitlen ?m - 1)"
    using assms(1) p2 by (simp add: field_simps)
  moreover have "2 powi (- bitlen ?m + 1) = 1 / (2::real) powi (bitlen ?m - 1)"
    using power_int_minus [of "2::real" "bitlen ?m - 1"] by (simp add: field_simps)
  ultimately have B: "x < 2 powi (- bitlen ?m + 1)"
    by simp
  show ?thesis using A B assms by (simp add: exponent2_def)
qed

lemma exponent2_bounds:
  "0 < x \<Longrightarrow> 2 powi (exponent2 x) \<le> x \<and> x < 2 powi (exponent2 x + 1)"
  using exponent2_ge1 [of x] exponent2_lt1 [of x] by (cases "1 \<le> x") auto

lemma powi2_le_iff: "(2::real) powi a \<le> 2 powi b \<longleftrightarrow> a \<le> b"
proof
  assume le: "(2::real) powi a \<le> 2 powi b"
  show "a \<le> b"
  proof (rule ccontr)
    assume "\<not> a \<le> b"
    then have "b < a" by simp
    then have "(2::real) powi b < 2 powi a"
      by (rule power_int_strict_increasing) simp
    with le show False by simp
  qed
next
  assume "a \<le> b"
  then show "(2::real) powi a \<le> 2 powi b"
    by (rule power_int_increasing) simp
qed

lemma powi2_pos: "(0::real) < 2 powi a"
  by (simp add: zero_less_power_int)

lemma round_even_of_int: "round_even (of_int m) = m"
  by (simp add: round_even_def)

lemma round_even_bounds: "\<lfloor>z\<rfloor> \<le> round_even z \<and> round_even z \<le> \<lceil>z\<rceil>"
proof -
  have "z - of_int \<lfloor>z\<rfloor> < 1 / 2 \<or> \<lfloor>z\<rfloor> + 1 \<le> \<lceil>z\<rceil>"
    by linarith
  then show ?thesis
    by (auto simp: round_even_def Let_def)
qed

lemma round_to_representable:
  assumes p: "1 \<le> p" and n: "\<bar>n\<bar> \<le> 2 ^ p" and k: "emin - int p + 1 \<le> k"
  shows "round_to p emin (of_int n * 2 powi k) = of_int n * 2 powi k"
proof (cases "n = 0")
  case True
  then show ?thesis by (simp add: round_to_def)
next
  case False
  define y where "y = of_int n * (2::real) powi k"
  define a where "a = \<bar>y\<bar>"
  define e where "e = max (exponent2 a) emin"
  define u where "u = (2::real) powi (e - int p + 1)"
  have a: "a = of_int \<bar>n\<bar> * 2 powi k"
    by (simp add: a_def y_def abs_mult)
  have y0: "y \<noteq> 0"
    using False by (simp add: y_def)
  then have apos: "0 < a" by (simp add: a_def)
  have upos: "0 < u" by (simp add: u_def powi2_pos)
  note b = exponent2_bounds [OF apos]
  have "\<exists>m. a / u = of_int m"
  proof (cases "e - int p + 1 \<le> k")
    case True
    have "a / u = of_int \<bar>n\<bar> * 2 powi (k - (e - int p + 1))"
      by (simp add: a u_def power_int_diff)
    also have "\<dots> = of_int \<bar>n\<bar> * 2 ^ nat (k - (e - int p + 1))"
      using True by (simp add: powi_nat)
    also have "\<dots> = of_int (\<bar>n\<bar> * 2 ^ nat (k - (e - int p + 1)))"
      by simp
    finally show ?thesis by blast
  next
    case False
    then have "emin < e" using k by linarith
    then have ee: "e = exponent2 a" by (simp add: e_def max_def split: if_splits)
    have "(2::real) powi e \<le> of_int \<bar>n\<bar> * 2 powi k"
      using b ee a by simp
    then have "2 powi e / 2 powi k \<le> real_of_int \<bar>n\<bar>"
      using powi2_pos [of k] by (simp add: field_simps)
    then have lo: "2 powi (e - k) \<le> real_of_int \<bar>n\<bar>"
      by (simp add: power_int_diff)
    have hi: "real_of_int \<bar>n\<bar> \<le> 2 powi (int p)"
      using n of_int_le_iff [of "\<bar>n\<bar>" "2 ^ p", where ?'a = real] by simp
    from lo hi have "(2::real) powi (e - k) \<le> 2 powi (int p)" by linarith
    then have "e - k \<le> int p" by (simp only: powi2_le_iff)
    with False have ek: "e = k + int p" by linarith
    from lo hi ek have "real_of_int \<bar>n\<bar> = 2 ^ p" by simp
    then have nn: "\<bar>real_of_int n\<bar> = 2 ^ p" by simp
    have "u = 2 * 2 powi k"
      by (simp add: u_def ek power_int_add)
    then have "a / u = 2 ^ p / 2"
      using powi2_pos [of k] by (simp add: a nn)
    also have "\<dots> = 2 ^ (p - 1)"
      using p by (cases p) simp_all
    also have "\<dots> = of_int (2 ^ (p - 1))" by simp
    finally show ?thesis by blast
  qed
  then obtain m where m: "a / u = of_int m" ..
  then have "of_int m * u = a"
    using upos by (simp add: field_simps)
  then have "of_int (round_even (a / u)) * u = a"
    by (simp add: m round_even_of_int)
  moreover have "sgn y * a = y"
    by (simp add: a_def sgn_mult_abs)
  ultimately have "sgn y * (of_int (round_even (a / u)) * u) = y"
    by simp
  then show ?thesis
    using y0 by (simp add: round_to_def Let_def y_def [symmetric] a_def [symmetric] e_def [symmetric] u_def [symmetric])
qed

lemma round_to_shape:
  "\<exists>n k. round_to p emin x = of_int n * 2 powi k \<and> \<bar>n\<bar> \<le> 2 ^ p \<and> emin - int p + 1 \<le> k"
proof (cases "x = 0")
  case True
  have "round_to p emin x = of_int 0 * 2 powi (emin - int p + 1)"
    using True by (simp add: round_to_def)
  then show ?thesis
    by (metis abs_zero order_refl zero_le_numeral zero_le_power)
next
  case False
  define a where "a = \<bar>x\<bar>"
  define e where "e = max (exponent2 a) emin"
  define u where "u = (2::real) powi (e - int p + 1)"
  define m where "m = round_even (a / u)"
  have apos: "0 < a" using False by (simp add: a_def)
  have upos: "0 < u" by (simp add: u_def powi2_pos)
  note b = exponent2_bounds [OF apos]
  have "(2::real) powi (exponent2 a + 1) \<le> 2 powi (e + 1)"
    by (simp only: powi2_le_iff) (simp add: e_def)
  also have "\<dots> = u * 2 powi (int p)"
    using power_int_add [of "2::real" "e - int p + 1" "int p"] by (simp add: u_def)
  finally have "a < u * 2 ^ p" using b by simp
  then have z: "a / u < 2 ^ p" "0 \<le> a / u"
    using upos apos by (simp_all add: field_simps)
  have "a / u \<le> of_int (2 ^ p)" using z(1) by simp
  then have "\<lceil>a / u\<rceil> \<le> 2 ^ p" by (rule ceiling_le)
  moreover have "0 \<le> \<lfloor>a / u\<rfloor>" using z(2) by simp
  ultimately have mb: "0 \<le> m" "m \<le> 2 ^ p"
    using round_even_bounds [of "a / u"] unfolding m_def by linarith+
  have r: "round_to p emin x = sgn x * (of_int m * u)"
    using False by (simp add: round_to_def Let_def a_def e_def u_def m_def)
  have "round_to p emin x = of_int (if 0 < x then m else - m) * 2 powi (e - int p + 1)"
    using False by (simp add: r u_def sgn_real_def)
  moreover have "\<bar>if 0 < x then m else - m\<bar> \<le> 2 ^ p"
    using mb by simp
  moreover have "emin - int p + 1 \<le> e - int p + 1"
    by (simp add: e_def)
  ultimately show ?thesis by blast
qed

lemma round_to_idem:
  assumes "1 \<le> p"
  shows "round_to p emin (round_to p emin x) = round_to p emin x"
proof -
  obtain n k where "round_to p emin x = of_int n * 2 powi k" "\<bar>n\<bar> \<le> 2 ^ p" "emin - int p + 1 \<le> k"
    using round_to_shape by blast
  then show ?thesis
    using round_to_representable [OF assms] by simp
qed

lemma fl_round_idem:
  assumes "1 \<le> p" and "fl_round p emin emax x = Some y"
  shows "fl_round p emin emax y = Some y"
proof -
  from assms(2) have y: "y = round_to p emin x" and fin: "\<not> 2 powi emax \<le> \<bar>y\<bar>"
    by (auto simp: fl_round_def Let_def split: if_splits)
  have "round_to p emin y = y"
    using round_to_idem [OF assms(1)] y by simp
  then show ?thesis
    using fin by (simp add: fl_round_def Let_def)
qed

lemma f32_idem: "f32 x = Some y \<Longrightarrow> f32 y = Some y"
  unfolding f32_def by (rule fl_round_idem) simp_all

section \<open>Properties of the aggregator in floating point\<close>

lemma update_avg_pts3d_f32_length:
  "length (fst (update_avg_pts3d_f32 avg counts new_v t)) = length avg"
  "length (snd (update_avg_pts3d_f32 avg counts new_v t)) = length counts"
  by (simp_all add: update_avg_pts3d_f32_def Let_def fold_upd_length)

lemma update_avg_pts3d_f32_counts:
  "j < length counts \<Longrightarrow>
   snd (update_avg_pts3d_f32 avg counts new_v t) ! j =
     (if j \<in> set t then round_to 24 (- 126) (counts ! j + 1) else counts ! j)"
  by (simp add: update_avg_pts3d_f32_def Let_def fold_upd_nth)

lemma update_avg_pts3d_f32_avg:
  "j < length avg \<Longrightarrow> j < length counts \<Longrightarrow>
   fst (update_avg_pts3d_f32 avg counts new_v t) ! j =
     (if j \<in> set t
      then running_avg_f32 (round_to 24 (- 126) (counts ! j + 1)) (avg ! j) (new_v ! j)
      else avg ! j)"
  by (simp add: update_avg_pts3d_f32_def Let_def fold_upd_nth)

lemma triangulate_pair_f32_OutOfRange:
  "triangulate_pair_f32 ext C cams cm p = Inr OutOfRange_f32 \<Longrightarrow> \<not> co_observed C p t"
  by (auto simp: triangulate_pair_f32_def co_observed_def Let_def split: prod.splits sum.splits if_splits)

lemma triangulate_pair_f32_NoCommonTracks:
  "triangulate_pair_f32 ext C cams cm p = Inr NoCommonTracks_f32 \<Longrightarrow> t < shape1 C \<Longrightarrow> \<not> co_observed C p t"
  by (auto simp: triangulate_pair_f32_def co_observed_def Let_def np_where_def filter_empty_conv
      split: prod.splits sum.splits if_splits)

lemma triangulate_pair_f32_Triangulated:
  "triangulate_pair_f32 ext C cams cm p = Inr (Triangulated_f32 idx pts nv) \<Longrightarrow>
     (t \<in> set idx \<longleftrightarrow> t < shape1 C \<and> co_observed C p t)"
  by (auto simp: triangulate_pair_f32_def co_observed_def Let_def np_where_set
      split: prod.splits sum.splits if_splits)

lemma triangulate_pair_f32_new_values:
  "triangulate_pair_f32 ext C cams cm p = Inr (Triangulated_f32 idx pts nv) \<Longrightarrow>
   setitem_rows_f32 (replicate (shape1 C) (Some 0, Some 0, Some 0)) idx pts = Inr nv \<and> distinct idx"
  by (auto simp: triangulate_pair_f32_def Let_def np_where_def
      split: prod.splits sum.splits if_splits)

lemma estimates_f32_Cons:
  "estimates_f32 ext C cams cm (p # ps) t =
     (if co_observed C p t then estimate_f32 ext C cams cm p t # estimates_f32 ext C cams cm ps t
      else estimates_f32 ext C cams cm ps t)"
  by (simp add: estimates_f32_def)

lemma pairs_loop_f32_inv:
  "pairs_loop_f32 ext C cams cm ps (avg, cnt) = Inr (avg', cnt') \<Longrightarrow>
   length avg = shape1 C \<Longrightarrow> length cnt = shape1 C \<Longrightarrow> t < shape1 C \<Longrightarrow>
   length avg' = shape1 C \<and> length cnt' = shape1 C \<and>
   (avg' ! t, cnt' ! t) =
     fold running_mean_step_f32 (estimates_f32 ext C cams cm ps t) (avg ! t, cnt ! t)"
proof (induction ps arbitrary: avg cnt)
  case Nil
  then show ?case by (simp add: estimates_f32_def)
next
  case (Cons p ps)
  show ?case
  proof (cases "triangulate_pair_f32 ext C cams cm p")
    case (Inl e)
    with Cons.prems(1) show ?thesis by simp
  next
    case (Inr out)
    show ?thesis
    proof (cases out)
      case OutOfRange_f32
      with Inr Cons.prems have run: "pairs_loop_f32 ext C cams cm ps (avg, cnt) = Inr (avg', cnt')"
        by simp
      have "\<not> co_observed C p t"
        using Inr OutOfRange_f32 by (simp add: triangulate_pair_f32_OutOfRange)
      then show ?thesis
        using Cons.IH [OF run Cons.prems(2-4)] by (simp add: estimates_f32_Cons)
    next
      case NoCommonTracks_f32
      with Inr Cons.prems have run: "pairs_loop_f32 ext C cams cm ps (avg, cnt) = Inr (avg', cnt')"
        by simp
      have "\<not> co_observed C p t"
        using Inr NoCommonTracks_f32 Cons.prems(4) by (simp add: triangulate_pair_f32_NoCommonTracks)
      then show ?thesis
        using Cons.IH [OF run Cons.prems(2-4)] by (simp add: estimates_f32_Cons)
    next
      case (Triangulated_f32 idx pts nv)
      define avg1 where "avg1 = fst (update_avg_pts3d_f32 avg cnt nv idx)"
      define cnt1 where "cnt1 = snd (update_avg_pts3d_f32 avg cnt nv idx)"
      have run: "pairs_loop_f32 ext C cams cm ps (avg1, cnt1) = Inr (avg', cnt')"
        using Inr Triangulated_f32 Cons.prems(1) by (simp add: avg1_def cnt1_def)
      have len: "length avg1 = shape1 C" "length cnt1 = shape1 C"
        using Cons.prems(2,3) by (simp_all add: avg1_def cnt1_def update_avg_pts3d_f32_length)
      have mem: "t \<in> set idx \<longleftrightarrow> co_observed C p t"
        using triangulate_pair_f32_Triangulated [of ext C cams cm p idx pts nv t] Inr Triangulated_f32
          Cons.prems(4)
        by simp
      have est: "estimate_f32 ext C cams cm p t = nv ! t"
        using Inr Triangulated_f32 by (simp add: estimate_f32_def)
      have cnt1: "cnt1 ! t = (if co_observed C p t then round_to 24 (- 126) (cnt ! t + 1) else cnt ! t)"
        using Cons.prems(3,4) mem by (simp add: cnt1_def update_avg_pts3d_f32_counts)
      have avg1: "avg1 ! t =
          (if co_observed C p t
           then running_avg_f32 (round_to 24 (- 126) (cnt ! t + 1)) (avg ! t) (nv ! t) else avg ! t)"
        using Cons.prems(2,3,4) mem by (simp add: avg1_def update_avg_pts3d_f32_avg)
      have step: "(avg1 ! t, cnt1 ! t) =
          (if co_observed C p t then running_mean_step_f32 (nv ! t) (avg ! t, cnt ! t)
           else (avg ! t, cnt ! t))"
        using cnt1 avg1 by (simp add: running_mean_step_f32_def Let_def)
      note IH = Cons.IH [OF run len Cons.prems(4)]
      show ?thesis
        using IH step est by (simp add: estimates_f32_Cons)
    qed
  qed
qed

lemma init_pts3d_f32_closed_form:
  assumes "init_pts3d_f32 ext C cams cm ps = Inr avg" and "t < shape1 C"
  shows "avg ! t = running_mean_f32 (estimates_f32 ext C cams cm ps t)"
proof -
  let ?n = "shape1 C"
  from assms(1) obtain cnt where
    run: "pairs_loop_f32 ext C cams cm ps (replicate ?n (Some 0, Some 0, Some 0), replicate ?n 0) = Inr (avg, cnt)"
    by (auto simp: init_pts3d_f32_def Let_def split: sum.splits)
  have "(avg ! t, cnt ! t) =
      fold running_mean_step_f32 (estimates_f32 ext C cams cm ps t) ((Some 0, Some 0, Some 0), 0)"
    using pairs_loop_f32_inv [OF run, of t] assms(2) by simp
  then show ?thesis
    by (metis fst_conv running_mean_f32_def)
qed

lemma f32_zero: "f32 0 = Some 0"
  by (simp add: f32_def fl_round_def round_to_def)

lemma round_to_one: "round_to 24 (- 126) 1 = 1"
  using round_to_representable [of 24 1 "- 126" 0] by simp

lemma running_avg1_f32_first: "running_avg1_f32 1 (Some 0) (cast32 w) = cast32 w"
proof (cases "cast32 w")
  case None
  then show ?thesis by (simp add: running_avg1_f32_def fl_op_def fl_div_def f32_zero)
next
  case (Some y)
  then obtain x where "f32 x = Some y"
    by (auto simp: cast32_def split: option.splits)
  then have "f32 y = Some y" by (rule f32_idem)
  then show ?thesis
    using Some by (simp add: running_avg1_f32_def fl_op_def fl_div_def f32_zero)
qed

lemma running_avg_f32_first:
  "running_avg_f32 1 (Some 0, Some 0, Some 0) (cast32_pt v) = cast32_pt v"
  by (cases v) (simp add: running_avg_f32_def cast32_pt_def running_avg1_f32_first)

lemma running_mean_f32_single: "running_mean_f32 [cast32_pt v] = cast32_pt v"
  by (simp add: running_mean_f32_def running_mean_step_f32_def Let_def round_to_one running_avg_f32_first)

lemma pairs_loop_f32_returns_iff:
  "(\<exists>st'. pairs_loop_f32 ext C cams cm ps st = Inr st') \<longleftrightarrow>
   (\<forall>p \<in> set ps. \<exists>out. triangulate_pair_f32 ext C cams cm p = Inr out)"
  by (induction ps arbitrary: st) (auto split: sum.splits pair_outcome_f32.splits)

lemma linear_triangulation_multiple_pts_fl_sim:
  "(case linear_triangulation_multiple_pts ext P1 P2 pts1 pts2 of
      Inl e \<Rightarrow> linear_triangulation_multiple_pts_fl ext P1 P2 pts1 pts2 = Inl e
    | Inr pts \<Rightarrow> (\<exists>pts'. linear_triangulation_multiple_pts_fl ext P1 P2 pts1 pts2 = Inr pts' \<and>
        length pts' = length pts))"
  by (auto simp: linear_triangulation_multiple_pts_def linear_triangulation_multiple_pts_fl_def
      split: sum.splits)

lemma rpc_triangulation_fl_sim:
  "(case map_sum id fst (rpc_triangulation ext P1 P2 pts1 pts2) of
      Inl e \<Rightarrow> map_sum id fst (rpc_triangulation_fl ext P1 P2 pts1 pts2) = Inl e
    | Inr pts \<Rightarrow> (\<exists>pts'. map_sum id fst (rpc_triangulation_fl ext P1 P2 pts1 pts2) = Inr pts' \<and>
        length pts' = length pts))"
  by (auto simp: rpc_triangulation_fl_def split: sum.splits prod.splits)

lemma setitem_rows_f32_sim:
  "length pts' = length pts \<Longrightarrow>
   (case setitem_rows arr idx pts of
      Inl e \<Rightarrow> setitem_rows_f32 arr' idx pts' = Inl e
    | Inr nv \<Rightarrow> (\<exists>nv'. setitem_rows_f32 arr' idx pts' = Inr nv'))"
  by (simp add: setitem_rows_def setitem_rows_f32_def)

lemma triangulate_pair_f32_sim:
  "(case triangulate_pair ext C cams cm p of
      Inl e \<Rightarrow> triangulate_pair_f32 ext C cams cm p = Inl e
    | Inr out \<Rightarrow> (\<exists>out'. triangulate_pair_f32 ext C cams cm p = Inr out'))"
proof -
  obtain c_i c_j where p: "p = (c_i, c_j)" by (cases p)
  show ?thesis
  proof (cases "c_i < int (shape0 C div 2) \<and> c_j < int (shape0 C div 2)")
    case False
    then show ?thesis
      by (auto simp: p triangulate_pair_def triangulate_pair_f32_def Let_def)
  next
    case guard: True
    show ?thesis
    proof (cases "py_index (mask_rows C) c_i")
      case (Inl e)
      then show ?thesis
        using guard by (simp add: p triangulate_pair_def triangulate_pair_f32_def Let_def)
    next
      case ki: (Inr k_i)
      show ?thesis
      proof (cases "py_index (mask_rows C) c_j")
        case (Inl e)
        then show ?thesis
          using guard ki by (simp add: p triangulate_pair_def triangulate_pair_f32_def Let_def)
      next
        case kj: (Inr k_j)
        let ?idx = "np_where (\<lambda>t. mask_arr C k_i t \<and> mask_arr C k_j t) (shape1 C)"
        show ?thesis
        proof (cases "length ?idx = 0")
          case True
          then show ?thesis
            using guard ki kj
            by (simp add: p triangulate_pair_def triangulate_pair_f32_def Let_def)
        next
          case nonempty: False
          show ?thesis
          proof (cases "py_index (length cams) c_i")
            case (Inl e)
            then show ?thesis
              using guard ki kj nonempty
              by (simp add: p triangulate_pair_def triangulate_pair_f32_def Let_def)
          next
            case a: (Inr a)
            show ?thesis
            proof (cases "py_index (length cams) c_j")
              case (Inl e)
              then show ?thesis
                using guard ki kj nonempty a
                by (simp add: p triangulate_pair_def triangulate_pair_f32_def Let_def)
            next
              case b: (Inr b)
              define R where "R = (if cm \<in> set [''affine'', ''perspective'']
                     then linear_triangulation_multiple_pts ext (cams ! a) (cams ! b) (obs2d C c_i ?idx) (obs2d C c_j ?idx)
                     else map_sum id fst (rpc_triangulation ext (cams ! a) (cams ! b) (obs2d C c_i ?idx) (obs2d C c_j ?idx)))"
              define R' where "R' = (if cm \<in> set [''affine'', ''perspective'']
                     then linear_triangulation_multiple_pts_fl ext (cams ! a) (cams ! b) (obs2d C c_i ?idx) (obs2d C c_j ?idx)
                     else map_sum id fst (rpc_triangulation_fl ext (cams ! a) (cams ! b) (obs2d C c_i ?idx) (obs2d C c_j ?idx)))"
              have e: "triangulate_pair ext C cams cm p =
                  (case R of Inl e \<Rightarrow> Inl e | Inr new_pts3d \<Rightarrow>
                    (case setitem_rows (replicate (shape1 C) (0, 0, 0)) ?idx new_pts3d of
                       Inl e \<Rightarrow> Inl e | Inr new_values \<Rightarrow> Inr (Triangulated ?idx new_pts3d new_values)))"
                using guard ki kj nonempty a b
                by (simp add: p triangulate_pair_def Let_def R_def)
              have e': "triangulate_pair_f32 ext C cams cm p =
                  (case R' of Inl e \<Rightarrow> Inl e | Inr new_pts3d \<Rightarrow>
                    (case setitem_rows_f32 (replicate (shape1 C) (Some 0, Some 0, Some 0)) ?idx new_pts3d of
                       Inl e \<Rightarrow> Inl e | Inr new_values \<Rightarrow> Inr (Triangulated_f32 ?idx new_pts3d new_values)))"
                using guard ki kj nonempty a b
                by (simp add: p triangulate_pair_f32_def Let_def R'_def)
              have sim: "(case R of Inl e \<Rightarrow> R' = Inl e
                  | Inr pts \<Rightarrow> (\<exists>pts'. R' = Inr pts' \<and> length pts' = length pts))"
              proof (cases "cm \<in> set [''affine'', ''perspective'']")
                case True
                show ?thesis
                  unfolding R_def R'_def if_P [OF True]
                  by (rule linear_triangulation_multiple_pts_fl_sim)
              next
                case False
                show ?thesis
                  unfolding R_def R'_def if_not_P [OF False]
                  by (rule rpc_triangulation_fl_sim)
              qed
              show ?thesis
              proof (cases R)
                case (Inl e)
                then show ?thesis using sim by (simp add: e e')
              next
                case (Inr pts)
                then obtain pts' where r': "R' = Inr pts'" and len: "length pts' = length pts"
                  using sim by auto
                show ?thesis
                  using setitem_rows_f32_sim [OF len, where arr = "replicate (shape1 C) (0, 0, 0)"
                      and idx = ?idx and arr' = "replicate (shape1 C) (Some 0, Some 0, Some 0)"]
                  by (auto simp: e e' Inr r' split: sum.splits)
              qed
            qed
          qed
        qed
      qed
    qed
  qed
qed

lemma init_pts3d_f32_returns_iff:
  "(\<exists>avg. init_pts3d_f32 ext C cams cm ps = Inr avg) \<longleftrightarrow> (\<exists>avg. init_pts3d ext C cams cm ps = Inr avg)"
proof -
  have pair: "(\<exists>out. triangulate_pair_f32 ext C cams cm p = Inr out) \<longleftrightarrow>
      (\<exists>out. triangulate_pair ext C cams cm p = Inr out)" for p
    using triangulate_pair_f32_sim [of ext C cams cm p] by (auto split: sum.splits)
  have "(\<exists>avg. init_pts3d_f32 ext C cams cm ps = Inr avg) \<longleftrightarrow>
      (\<exists>st. pairs_loop_f32 ext C cams cm ps
         (replicate (shape1 C) (Some 0, Some 0, Some 0), replicate (shape1 C) 0) = Inr st)"
    by (auto simp: init_pts3d_f32_def Let_def split: sum.splits)
  moreover have "(\<exists>avg. init_pts3d ext C cams cm ps = Inr avg) \<longleftrightarrow>
      (\<exists>st. pairs_loop ext C cams cm ps
         (replicate (shape1 C) (0, 0, 0), replicate (shape1 C) 0) = Inr st)"
    by (auto simp: init_pts3d_def Let_def split: sum.splits)
  ultimately show ?thesis
    by (simp only: pairs_loop_f32_returns_iff pairs_loop_returns_iff pair)
qed

section \<open>The scenes with large coordinates, evaluated\<close>

lemma bitlen_numeral_step: "bitlen (numeral n) = bitlen (numeral n div 2) + 1"
  by (subst compute_bitlen) simp

lemma bitlen_1: "bitlen 1 = 1"
  by (subst compute_bitlen) simp

lemmas round_eval = fl_round_def round_to_def exponent2_def round_even_def power_int_def Let_def
  bitlen_numeral_step bitlen_1 power_one_over

lemma ex_upt: "[0..<2] = [0, Suc 0]" "[2..<4] = [2, 3]" "[4..<6] = [4, 5]"
  by code_simp+

lemma f64_zero: "f64 0 = Some 0"
  by (simp add: f64_def fl_round_def round_to_def)

lemma ex_f64:
  "f64 1 = Some 1" "f64 16777216 = Some 16777216" "f64 16777217 = Some 16777217"
  by (simp_all add: f64_def round_eval)

lemma ex_f32:
  "f32 1 = Some 1" "f32 2 = Some 2" "f32 8388608 = Some 8388608" "f32 16777216 = Some 16777216"
  "f32 16777217 = Some 16777216" "f32 (16777216 / 3) = Some (11184811 / 2)"
  "f32 5592406 = Some 5592406"
  by (simp_all add: f32_def round_eval)

lemma ex_counts:
  "round_to 24 (- 126) 2 = 2" "round_to 24 (- 126) 3 = 3"
  by (simp_all add: round_eval)

lemmas f32_model_eval = init_pts3d_f32_def triangulate_pair_f32_def update_avg_pts3d_f32_def
  running_avg_f32_def running_avg1_f32_def setitem_rows_f32_def cast32_pt_def cast32_def
  fl_op_def fl_div_def linear_triangulation_multiple_pts_fl_def
  py_index_def mask_rows_def mask_arr_def np_where_def obs2d_def py_slice_def slice_bound_def
  f32_zero f64_zero ex_f64 ex_f32 round_to_one ex_counts ex_upt

lemma ex_big_init_pts3d_f32:
  "init_pts3d_f32 ex_ext_z ex_C_big ex_cameras ''perspective'' [(0, 1), (1, 2), (2, 0)] =
     Inr [(Some 0, Some 0, Some (11184811 / 2))]"
  by (simp add: f32_model_eval ex_ext_z_def ex_C_big_def ex_cameras_def)

lemma ex_big_triangulate_pair_f32:
  "triangulate_pair_f32 ex_ext_z ex_C_big ex_cameras ''perspective'' (0, 1) =
     Inr (Triangulated_f32 [0] [(Some 0, Some 0, Some 16777216)] [(Some 0, Some 0, Some 16777216)])"
  "triangulate_pair_f32 ex_ext_z ex_C_big ex_cameras ''perspective'' (1, 2) =
     Inr (Triangulated_f32 [0] [(Some 0, Some 0, Some 1)] [(Some 0, Some 0, Some 1)])"
  "triangulate_pair_f32 ex_ext_z ex_C_big ex_cameras ''perspective'' (2, 0) =
     Inr (Triangulated_f32 [0] [(Some 0, Some 0, Some 1)] [(Some 0, Some 0, Some 1)])"
  by (simp_all add: f32_model_eval ex_ext_z_def ex_C_big_def ex_cameras_def)

lemma ex_big_co_observed:
  "co_observed ex_C_big (0, 1) 0" "co_observed ex_C_big (1, 2) 0" "co_observed ex_C_big (2, 0) 0"
  by (simp_all add: co_observed_def ex_C_big_def py_index_def mask_rows_def mask_arr_def)

lemma ex_big_estimates_f32:
  "estimates_f32 ex_ext_z ex_C_big ex_cameras ''perspective'' [(0, 1), (1, 2), (2, 0)] 0 =
     [(Some 0, Some 0, Some 16777216), (Some 0, Some 0, Some 1), (Some 0, Some 0, Some 1)]"
  by (simp add: estimates_f32_def estimate_f32_def ex_big_co_observed ex_big_triangulate_pair_f32)

lemma ex_big_shape1: "shape1 ex_C_big = 1"
  by (simp add: ex_C_big_def)

lemma ex_odd_init_pts3d_f32:
  "init_pts3d_f32 ex_ext_z ex_C_odd ex_cameras ''perspective'' [(0, 1)] =
     Inr [(Some 0, Some 0, Some 16777216)]"
  by (simp add: f32_model_eval ex_ext_z_def ex_C_odd_def ex_cameras_def)

lemma ex_odd_triangulate_pair_f32:
  "triangulate_pair_f32 ex_ext_z ex_C_odd ex_cameras ''perspective'' (0, 1) =
     Inr (Triangulated_f32 [0] [(Some 0, Some 0, Some 16777217)] [(Some 0, Some 0, Some 16777216)])"
  by (simp add: f32_model_eval ex_ext_z_def ex_C_odd_def ex_cameras_def)

lemma ex_odd_co_observed: "filter (\<lambda>q. co_observed ex_C_odd q 0) [(0, 1)] = [(0, 1)]"
  by (simp add: co_observed_def ex_C_odd_def py_index_def mask_rows_def mask_arr_def)

lemma ex_mean: "pt_mean [(0, 0, 16777216), (0, 0, 1), (0, 0, 1)] = (0, 0, 5592406)"
  by (simp add: pt_mean_def pt_scale_def pt_add_def)

section \<open>The properties of the specification\<close>

text \<open>
  C1. For every correspondence matrix, camera list and pair list on which
  \<open>init_pts3d\<close> returns, the estimate of a track is the running value of the
  incremental update \<open>((count - 1) * avg[t] + new_values[t]) / count\<close>, applied once
  for each processed pair that co-observes the track, in the order of the list,
  from the zero vector and the count zero, every operation rounded to single
  precision. The same update on exact numbers returns as well, and gives the
  arithmetic mean of the estimates of those pairs, each with the same weight.
\<close>

theorem init_pts3d_running_mean:
  assumes "init_pts3d_f32 ext C cams cm ps = Inr avg" and "t < shape1 C"
  shows "avg ! t = running_mean_f32 (estimates_f32 ext C cams cm ps t) \<and>
         (\<exists>avg_x. init_pts3d ext C cams cm ps = Inr avg_x \<and>
            avg_x ! t = pt_mean (estimates ext C cams cm ps t))"
proof
  show "avg ! t = running_mean_f32 (estimates_f32 ext C cams cm ps t)"
    using assms by (rule init_pts3d_f32_closed_form)
next
  from assms(1) obtain avg_x where x: "init_pts3d ext C cams cm ps = Inr avg_x"
    using init_pts3d_f32_returns_iff [of ext C cams cm ps] by blast
  then have "avg_x ! t = pt_mean (estimates ext C cams cm ps t)"
    using assms(2) by (rule init_pts3d_closed_form)
  with x show "\<exists>avg_x. init_pts3d ext C cams cm ps = Inr avg_x \<and>
      avg_x ! t = pt_mean (estimates ext C cams cm ps t)"
    by blast
qed

theorem init_pts3d_running_mean_witness:
  "init_pts3d_f32 ex_ext_z ex_C_big ex_cameras ''perspective'' [(0, 1), (1, 2), (2, 0)] =
     Inr [(Some 0, Some 0, Some (11184811 / 2))] \<and>
   (0 :: nat) < shape1 ex_C_big \<and>
   [(Some 0, Some 0, Some (11184811 / 2))] ! 0 =
     running_mean_f32 (estimates_f32 ex_ext_z ex_C_big ex_cameras ''perspective'' [(0, 1), (1, 2), (2, 0)] 0) \<and>
   (\<exists>avg_x. init_pts3d ex_ext_z ex_C_big ex_cameras ''perspective'' [(0, 1), (1, 2), (2, 0)] = Inr avg_x \<and>
      avg_x ! 0 = pt_mean (estimates ex_ext_z ex_C_big ex_cameras ''perspective'' [(0, 1), (1, 2), (2, 0)] 0))"
proof -
  have t: "(0 :: nat) < shape1 ex_C_big"
    by (simp add: ex_big_shape1)
  show ?thesis
    using init_pts3d_running_mean [OF ex_big_init_pts3d_f32 t] ex_big_init_pts3d_f32 t by blast
qed

text \<open>
  The value computed in single precision is not always the arithmetic mean. Three
  pairs estimate one track at 16777216, 1 and 1 (third coordinate); the mean,
  5592406, is a single-precision number, and the call returns 5592405.5: the sums
  \<open>16777216 + 1\<close> of the second and third update round to 16777216.
\<close>

theorem init_pts3d_f32_not_the_mean_counterexample:
  "init_pts3d_f32 ex_ext_z ex_C_big ex_cameras ''perspective'' [(0, 1), (1, 2), (2, 0)] =
     Inr [(Some 0, Some 0, Some (11184811 / 2))] \<and>
   estimates_f32 ex_ext_z ex_C_big ex_cameras ''perspective'' [(0, 1), (1, 2), (2, 0)] 0 =
     [(Some 0, Some 0, Some 16777216), (Some 0, Some 0, Some 1), (Some 0, Some 0, Some 1)] \<and>
   pt_mean [(0, 0, 16777216), (0, 0, 1), (0, 0, 1)] = (0, 0, 5592406) \<and>
   f32 5592406 = Some 5592406 \<and> (11184811 / 2 :: real) \<noteq> 5592406"
  using ex_big_init_pts3d_f32 ex_big_estimates_f32 ex_mean ex_f32(7) by simp



text \<open>
  C3, as the code has it. \<open>init_pts3d\<close> does not check \<open>cam_model\<close>: the test is
  \<open>cam_model in ["affine", "perspective"]\<close> with the RPC triangulation in the \<open>else\<close>
  branch, so a value outside the three recognized options raises nothing and gives
  what \<open>"rpc"\<close> gives. The counterexample is a call with the value \<open>"bogus"\<close> that
  returns an array.
\<close>

theorem init_pts3d_unrecognized_cam_model:
  assumes "cm \<noteq> ''affine''" and "cm \<noteq> ''perspective''"
  shows "init_pts3d ext C cams cm ps = init_pts3d ext C cams ''rpc'' ps"
proof -
  have "pairs_loop ext C cams cm ps st = pairs_loop ext C cams ''rpc'' ps st" for st
    using assms by (rule pairs_loop_unrecognized)
  then show ?thesis
    by (simp add: init_pts3d_def)
qed

theorem init_pts3d_unrecognized_cam_model_witness:
  "''bogus'' \<noteq> ''affine'' \<and> ''bogus'' \<noteq> ''perspective'' \<and>
   init_pts3d ex_ext ex_C ex_cameras ''bogus'' [(0, 1), (1, 2)] =
     init_pts3d ex_ext ex_C ex_cameras ''rpc'' [(0, 1), (1, 2)]"
proof -
  have a: "''bogus'' \<noteq> ''affine''" and b: "''bogus'' \<noteq> ''perspective''"
    by simp_all
  show ?thesis
    using a b init_pts3d_unrecognized_cam_model [OF a b] by simp
qed

theorem init_pts3d_bogus_cam_model_counterexample:
  "init_pts3d ex_ext ex_C ex_cameras ''bogus'' [(0, 1), (1, 2)] =
     Inr [(5 / 2, 3 / 2, 0), (2, 1, 0), (0, 0, 0)]"
  by code_simp

text \<open>
  C6. A pair with an index at or above the number of cameras is skipped: the
  iteration raises nothing and changes nothing, and the call gives what it gives on
  the list without that pair (the same array, or the same exception of another pair).
\<close>

theorem init_pts3d_skips_out_of_range:
  assumes "int (shape0 C div 2) \<le> c_i \<or> int (shape0 C div 2) \<le> c_j"
  shows "triangulate_pair ext C cams cm (c_i, c_j) = Inr OutOfRange \<and>
         init_pts3d ext C cams cm (ps1 @ (c_i, c_j) # ps2) = init_pts3d ext C cams cm (ps1 @ ps2)"
proof -
  have skip: "triangulate_pair ext C cams cm (c_i, c_j) = Inr OutOfRange"
    using assms by (rule triangulate_pair_out_of_range)
  then show ?thesis
    by (simp add: init_pts3d_def pairs_loop_skip)
qed

theorem init_pts3d_skips_out_of_range_witness:
  "(int (shape0 ex_C div 2) \<le> 0 \<or> int (shape0 ex_C div 2) \<le> 5) \<and>
   triangulate_pair ex_ext ex_C ex_cameras ''perspective'' (0, 5) = Inr OutOfRange \<and>
   init_pts3d ex_ext ex_C ex_cameras ''perspective'' ([(0, 1)] @ (0, 5) # [(1, 2)]) =
     Inr [(4, 4, 10), (3, 2, 1), (0, 0, 0)]"
proof -
  have h: "int (shape0 ex_C div 2) \<le> 0 \<or> int (shape0 ex_C div 2) \<le> 5"
    by (simp add: ex_C_def)
  show ?thesis
    using h init_pts3d_skips_out_of_range [OF h, of ex_ext ex_cameras "''perspective''" "[(0, 1)]" "[(1, 2)]"]
      ex_init_pts3d
    by simp
qed

text \<open>
  C7. On an empty pair list \<open>init_pts3d\<close> returns, without an exception, the array of
  \<open>n_tracks\<close> zero vectors. On any pair list, the array it returns has \<open>n_tracks\<close> rows,
  and the row of a track that no pair of the list co-observes is the zero vector.
\<close>

theorem init_pts3d_zero_sentinel:
  "init_pts3d ext C cams cm [] = Inr (replicate (shape1 C) (0, 0, 0)) \<and>
   (init_pts3d ext C cams cm ps = Inr avg \<longrightarrow>
      length avg = shape1 C \<and>
      (\<forall>t < shape1 C. filter (\<lambda>p. co_observed C p t) ps = [] \<longrightarrow> avg ! t = (0, 0, 0)))"
proof (intro conjI impI allI)
  show "init_pts3d ext C cams cm [] = Inr (replicate (shape1 C) (0, 0, 0))"
    by (rule init_pts3d_empty)
next
  assume "init_pts3d ext C cams cm ps = Inr avg"
  then show "length avg = shape1 C"
    by (rule init_pts3d_length)
next
  fix t
  assume "init_pts3d ext C cams cm ps = Inr avg" and "t < shape1 C"
    and "filter (\<lambda>p. co_observed C p t) ps = []"
  then show "avg ! t = (0, 0, 0)"
    by (rule init_pts3d_no_contribution)
qed

theorem init_pts3d_zero_sentinel_witness:
  "init_pts3d ex_ext ex_C ex_cameras ''perspective'' [] = Inr [(0, 0, 0), (0, 0, 0), (0, 0, 0)] \<and>
   init_pts3d ex_ext ex_C ex_cameras ''perspective'' [(0, 1), (1, 2)] =
     Inr [(4, 4, 10), (3, 2, 1), (0, 0, 0)] \<and>
   (2 :: nat) < shape1 ex_C \<and>
   filter (\<lambda>p. co_observed ex_C p 2) [(0, 1), (1, 2)] = [] \<and>
   length [(4, 4, 10), (3, 2, 1), (0, 0, 0) :: pt3] = shape1 ex_C \<and>
   [(4, 4, 10), (3, 2, 1), (0, 0, 0) :: pt3] ! 2 = (0, 0, 0)"
proof -
  have f: "filter (\<lambda>p. co_observed ex_C p 2) [(0, 1), (1, 2)] = []"
    by code_simp
  have e: "replicate (shape1 ex_C) (0, 0, 0) = [(0, 0, 0), (0, 0, 0), (0, 0, 0) :: pt3]"
    by (simp add: ex_shape1 numeral_3_eq_3)
  show ?thesis
    using init_pts3d_zero_sentinel
      [of ex_ext ex_C ex_cameras "''perspective''" "[(0, 1), (1, 2)]" "[(4, 4, 10), (3, 2, 1), (0, 0, 0)]"]
      ex_init_pts3d f e
    by (simp add: ex_shape1)
qed

text \<open>
  C8. When exactly one pair of the list co-observes a track, the entry that
  \<open>init_pts3d\<close> returns for the track is the single-precision cast of the 3D point
  that the pairwise triangulator produced for it in that pair: the cast of the row
  \<open>k\<close> of \<open>new_pts3d\<close>, for the position \<open>k\<close> of the track in \<open>pt_indices\<close>. The
  running update with the count one leaves the value stored in \<open>new_values\<close> as it
  is; when that value is not finite, neither is the entry.
\<close>

theorem init_pts3d_f32_single_contribution:
  assumes "init_pts3d_f32 ext C cams cm ps = Inr avg"
    and "filter (\<lambda>q. co_observed C q t) ps = [p]"
    and "triangulate_pair_f32 ext C cams cm p = Inr (Triangulated_f32 idx pts nv)"
    and "length pts = length idx" and "k < length idx" and "idx ! k = t"
  shows "avg ! t = cast32_pt (pts ! k)"
proof -
  have mem: "t \<in> set idx"
    using assms(5,6) by (metis nth_mem)
  then have t: "t < shape1 C"
    using triangulate_pair_f32_Triangulated [OF assms(3), of t] by simp
  have nv: "setitem_rows_f32 (replicate (shape1 C) (Some 0, Some 0, Some 0)) idx pts = Inr nv"
    and d: "distinct idx"
    using triangulate_pair_f32_new_values [OF assms(3)] by simp_all
  have "nv ! (idx ! k) = map cast32_pt pts ! k"
    using nv assms(4,5,6) d t by (auto simp: setitem_rows_f32_def fold_zip_upd_nth)
  then have "nv ! t = cast32_pt (pts ! k)"
    using assms(4,5,6) by simp
  moreover have "estimate_f32 ext C cams cm p t = nv ! t"
    using assms(3) by (simp add: estimate_f32_def)
  moreover have "avg ! t = running_mean_f32 (estimates_f32 ext C cams cm ps t)"
    using assms(1) t by (rule init_pts3d_f32_closed_form)
  moreover have "estimates_f32 ext C cams cm ps t = [estimate_f32 ext C cams cm p t]"
    using assms(2) by (simp add: estimates_f32_def)
  ultimately show ?thesis
    by (simp add: running_mean_f32_single)
qed

theorem init_pts3d_f32_single_contribution_witness:
  "init_pts3d_f32 ex_ext_z ex_C_odd ex_cameras ''perspective'' [(0, 1)] =
     Inr [(Some 0, Some 0, Some 16777216)] \<and>
   filter (\<lambda>q. co_observed ex_C_odd q 0) [(0, 1)] = [(0, 1)] \<and>
   triangulate_pair_f32 ex_ext_z ex_C_odd ex_cameras ''perspective'' (0, 1) =
     Inr (Triangulated_f32 [0] [(Some 0, Some 0, Some 16777217)] [(Some 0, Some 0, Some 16777216)]) \<and>
   [(Some 0, Some 0, Some 16777216) :: fpt3] ! 0 = cast32_pt ([(Some 0, Some 0, Some 16777217)] ! 0)"
proof -
  have "[(Some 0, Some 0, Some 16777216) :: fpt3] ! 0 = cast32_pt ([(Some 0, Some 0, Some 16777217)] ! 0)"
    by (rule init_pts3d_f32_single_contribution
        [OF ex_odd_init_pts3d_f32 ex_odd_co_observed ex_odd_triangulate_pair_f32]) simp_all
  then show ?thesis
    using ex_odd_init_pts3d_f32 ex_odd_co_observed ex_odd_triangulate_pair_f32 by blast
qed

text \<open>
  The entry is not always the point of the triangulator itself: the point with
  the third coordinate 16777217, which is not a single-precision number, is
  returned as 16777216.
\<close>

theorem init_pts3d_f32_cast_counterexample:
  "filter (\<lambda>q. co_observed ex_C_odd q 0) [(0, 1)] = [(0, 1)] \<and>
   triangulate_pair_f32 ex_ext_z ex_C_odd ex_cameras ''perspective'' (0, 1) =
     Inr (Triangulated_f32 [0] [(Some 0, Some 0, Some 16777217)] [(Some 0, Some 0, Some 16777216)]) \<and>
   init_pts3d_f32 ex_ext_z ex_C_odd ex_cameras ''perspective'' [(0, 1)] =
     Inr [(Some 0, Some 0, Some 16777216)] \<and>
   [(Some 0, Some 0, Some 16777216) :: fpt3] ! 0 \<noteq> [(Some 0, Some 0, Some 16777217)] ! 0"
  using ex_odd_init_pts3d_f32 ex_odd_co_observed ex_odd_triangulate_pair_f32 by simp

text \<open>
  C9. \<open>init_pts3d\<close> leaves the correspondence matrix as it was. On the store of
  arrays: when the call returns, every array that existed before the call, the
  matrix \<open>C\<close> among them, is unchanged; the result is a newly allocated cell, and it
  holds the array that \<open>init_pts3d\<close> computes from \<open>C\<close>.
\<close>

theorem init_pts3d_leaves_C_unchanged:
  assumes "lookup s c = Some (Matrix C)"
    and "init_pts3d_st ext s c cams cm ps = Inr (r, s')"
  shows "lookup s' c = Some (Matrix C) \<and> (\<forall>k < length s. s' ! k = s ! k) \<and>
         r = length s \<and>
         (\<exists>avg. lookup s' r = Some (Points avg) \<and> init_pts3d ext C cams cm ps = Inr avg)"
proof (cases "init_pts3d ext C cams cm ps")
  case (Inl e)
  then have "init_pts3d_st ext s c cams cm ps = Inl e"
    using init_pts3d_st_refines [OF assms(1), of ext cams cm ps] by simp
  with assms(2) show ?thesis by simp
next
  case (Inr avg)
  then obtain s'' where s'': "init_pts3d_st ext s c cams cm ps = Inr (length s, s'')"
    "lookup s'' (length s) = Some (Points avg)" "\<forall>k < length s. s'' ! k = s ! k"
    using init_pts3d_st_refines [OF assms(1), of ext cams cm ps] by auto
  from s''(1) assms(2) have eq: "r = length s" "s' = s''"
    by simp_all
  have c: "c < length s" "s ! c = Matrix C"
    using assms(1) by (simp_all add: lookup_Some)
  have "length s < length s'"
    using s''(2) eq by (simp add: lookup_Some)
  then have "lookup s' c = Some (Matrix C)"
    using c s''(3) eq by (simp add: lookup_Some)
  then show ?thesis
    using s''(2,3) eq Inr by auto
qed

theorem init_pts3d_leaves_C_unchanged_witness:
  "lookup [Matrix ex_C] 0 = Some (Matrix ex_C) \<and>
   (\<exists>s'. init_pts3d_st ex_ext [Matrix ex_C] 0 ex_cameras ''perspective'' [(0, 1), (1, 2)] = Inr (1, s') \<and>
      lookup s' 0 = Some (Matrix ex_C) \<and>
      lookup s' 1 = Some (Points [(4, 4, 10), (3, 2, 1), (0, 0, 0)]))"
proof -
  have l: "lookup [Matrix ex_C] 0 = Some (Matrix ex_C)"
    by (simp add: lookup_def)
  obtain s' where run:
    "init_pts3d_st ex_ext [Matrix ex_C] 0 ex_cameras ''perspective'' [(0, 1), (1, 2)] = Inr (1, s')"
    using init_pts3d_st_refines [OF l, of ex_ext ex_cameras "''perspective''" "[(0, 1), (1, 2)]"]
      ex_init_pts3d
    by auto
  have "lookup s' 0 = Some (Matrix ex_C) \<and>
      (\<exists>avg. lookup s' 1 = Some (Points avg) \<and>
         init_pts3d ex_ext ex_C ex_cameras ''perspective'' [(0, 1), (1, 2)] = Inr avg)"
    using init_pts3d_leaves_C_unchanged [OF l run] by simp
  then have "lookup s' 0 = Some (Matrix ex_C) \<and>
      lookup s' 1 = Some (Points [(4, 4, 10), (3, 2, 1), (0, 0, 0)])"
    using ex_init_pts3d by auto
  then show ?thesis
    using l run by blast
qed

text \<open>
  C10, as the code has it. The range test is \<open>c_i < n_cam and c_j < n_cam\<close>, with no
  lower bound. A pair with a negative index whose two indices are both below
  \<open>n_cam\<close> passes it and is not skipped: an index below minus the number of rows of
  the mask raises \<open>IndexError\<close>, and otherwise the tracks of the pair are read from
  the rows of the mask that the indices name counting from the end. A pair with a
  negative index is still skipped when its other index is \<open>n_cam\<close> or more; the
  counterexample is the pair \<open>(-1, 3)\<close> on three cameras.
\<close>

theorem negative_index_passes_guard:
  assumes "c_i < 0 \<or> c_j < 0"
    and "c_i < int (shape0 C div 2)" and "c_j < int (shape0 C div 2)"
  shows "triangulate_pair ext C cams cm (c_i, c_j) \<noteq> Inr OutOfRange \<and>
         (c_i < - int (mask_rows C) \<or> c_j < - int (mask_rows C) \<longrightarrow>
            triangulate_pair ext C cams cm (c_i, c_j) = Inl IndexError) \<and>
         (\<forall>idx pts nv. triangulate_pair ext C cams cm (c_i, c_j) = Inr (Triangulated idx pts nv) \<longrightarrow>
            idx = np_where (\<lambda>t. mask_arr C (wrap_index (mask_rows C) c_i) t \<and>
                                 mask_arr C (wrap_index (mask_rows C) c_j) t) (shape1 C))"
proof (intro conjI allI impI)
  show "triangulate_pair ext C cams cm (c_i, c_j) \<noteq> Inr OutOfRange"
    using assms(2,3) by (rule triangulate_pair_guard)
next
  assume "c_i < - int (mask_rows C) \<or> c_j < - int (mask_rows C)"
  with assms(2,3) show "triangulate_pair ext C cams cm (c_i, c_j) = Inl IndexError"
    by (rule triangulate_pair_below)
next
  fix idx pts nv
  assume "triangulate_pair ext C cams cm (c_i, c_j) = Inr (Triangulated idx pts nv)"
  then show "idx = np_where (\<lambda>t. mask_arr C (wrap_index (mask_rows C) c_i) t \<and>
      mask_arr C (wrap_index (mask_rows C) c_j) t) (shape1 C)"
    by (rule triangulate_pair_indices)
qed

theorem negative_index_passes_guard_witness:
  "((- 2 :: int) < 0 \<or> (0 :: int) < 0) \<and> - 2 < int (shape0 ex_C div 2) \<and> 0 < int (shape0 ex_C div 2) \<and>
   triangulate_pair ex_ext ex_C ex_cameras ''perspective'' (- 2, 0) =
     Inr (Triangulated [0, 1] [(3, 2, 20), (3, 2, 21)] [(3, 2, 20), (3, 2, 21), (0, 0, 0)]) \<and>
   triangulate_pair ex_ext ex_C ex_cameras ''perspective'' (- 2, 0) \<noteq> Inr OutOfRange \<and>
   wrap_index (mask_rows ex_C) (- 2) = 1 \<and>
   [0, 1] = np_where (\<lambda>t. mask_arr ex_C (wrap_index (mask_rows ex_C) (- 2)) t \<and>
                           mask_arr ex_C (wrap_index (mask_rows ex_C) 0) t) (shape1 ex_C)"
proof -
  have a: "(- 2 :: int) < 0 \<or> (0 :: int) < 0"
    by simp
  have b: "- 2 < int (shape0 ex_C div 2)" and c: "0 < int (shape0 ex_C div 2)"
    by (simp_all add: ex_C_def)
  have tri: "triangulate_pair ex_ext ex_C ex_cameras ''perspective'' (- 2, 0) =
      Inr (Triangulated [0, 1] [(3, 2, 20), (3, 2, 21)] [(3, 2, 20), (3, 2, 21), (0, 0, 0)])"
    by code_simp
  have w: "wrap_index (mask_rows ex_C) (- 2) = 1"
    by (simp add: wrap_index_def mask_rows_def ex_C_def)
  note inst = negative_index_passes_guard [OF a b c, of ex_ext ex_cameras "''perspective''"]
  from inst have ne: "triangulate_pair ex_ext ex_C ex_cameras ''perspective'' (- 2, 0) \<noteq> Inr OutOfRange"
    by (rule conjunct1)
  from inst tri have idx: "[0, 1] = np_where (\<lambda>t. mask_arr ex_C (wrap_index (mask_rows ex_C) (- 2)) t \<and>
      mask_arr ex_C (wrap_index (mask_rows ex_C) 0) t) (shape1 ex_C)"
    by blast
  show ?thesis
    using a b c tri ne w idx by blast
qed

theorem negative_index_skipped_counterexample:
  "triangulate_pair ex_ext ex_C ex_cameras ''perspective'' (- 1, 3) = Inr OutOfRange \<and>
   init_pts3d ex_ext ex_C ex_cameras ''perspective'' [(0, 1), (- 1, 3), (1, 2)] =
     init_pts3d ex_ext ex_C ex_cameras ''perspective'' [(0, 1), (1, 2)]"
  by code_simp

text \<open>
  C4, where the code departs from it. For two cameras the coefficient array that
  \<open>linear_triangulation_single_pt_multiview\<close> builds is not the \<open>4 \<times> 4\<close> matrix of the
  four rows (the one \<open>linear_triangulation_single_pt\<close> builds from the same data): it
  is a stack of two \<open>2 \<times> 4\<close> blocks, one per camera, each decomposed on its own, and
  what the function returns, when it returns, is a \<open>3 \<times> 2\<close> array and not one 3D point.
\<close>

theorem multiview_A_is_a_stack_of_blocks:
  "multiview_A [x1, y1, x2, y2] [P1, P2] =
     Inr [take 2 (single_pt_A P1 P2 (x1, y1) (x2, y2)), drop 2 (single_pt_A P1 P2 (x1, y1) (x2, y2))] \<and>
   length (single_pt_A P1 P2 (x1, y1) (x2, y2)) = 4 \<and>
   (case linear_triangulation_single_pt_multiview svd [x1, y1, x2, y2] [P1, P2] of
      Inl e \<Rightarrow> True
    | Inr pt_3d \<Rightarrow> map length pt_3d = [2, 2, 2])"
proof -
  obtain a b c where P1: "P1 = (a, b, c)" by (cases P1)
  obtain d e f where P2: "P2 = (d, e, f)" by (cases P2)
  have A: "multiview_A [x1, y1, x2, y2] [P1, P2] =
      Inr [[row_comb x1 c a, row_comb y1 c b], [row_comb x2 f d, row_comb y2 f e]]"
    by (simp add: multiview_A_def define_row_def P1 P2)
  have S: "single_pt_A P1 P2 (x1, y1) (x2, y2) =
      [row_comb x1 c a, row_comb y1 c b, row_comb x2 f d, row_comb y2 f e]"
    by (simp add: single_pt_A_def P1 P2)
  have R: "(case linear_triangulation_single_pt_multiview svd [x1, y1, x2, y2] [P1, P2] of
      Inl e \<Rightarrow> True | Inr pt_3d \<Rightarrow> map length pt_3d = [2, 2, 2])"
    by (simp add: linear_triangulation_single_pt_multiview_def A split: sum.splits)
  show ?thesis
    using A S R by simp
qed

text \<open>
  C5, where the code departs from it. On a matrix of two cameras that both see its
  one track, and a list of two projection matrices, \<open>init_pts3d_multiview\<close> raises
  \<open>TypeError\<close> in its first iteration, whatever the decomposition routine is: the
  list of cameras is indexed with the whole index array that \<open>np.where\<close> returned.
\<close>

theorem init_pts3d_multiview_raises:
  "init_pts3d_multiview svd ex_C2 [ex_P, ex_Q] = Inl TypeError"
  by (simp add: init_pts3d_multiview_def multiview_step_def list_getitem_ndarray_def ex_C2_def)

end
